theory Spec2Isabelle
  imports Main "HOL-Library.Multiset"
begin

section \<open>Strings\<close>

text \<open>
  A JavaScript string is a sequence of code units; it is modelled as a \<^typ>\<open>string\<close>
  (a list of characters).  The three string primitives that \<^verbatim>\<open>ReactRenderer.tsx\<close>
  uses are \<^verbatim>\<open>startsWith\<close>, \<^verbatim>\<open>slice\<close> with one non-negative argument and
  \<^verbatim>\<open>includes\<close> with a one-character needle.
\<close>

definition startsWith :: "string \<Rightarrow> string \<Rightarrow> bool" where
  "startsWith s b = (take (length b) s = b)"

definition slice :: "string \<Rightarrow> nat \<Rightarrow> string" where
  "slice s n = drop n s"

definition includes_str :: "string \<Rightarrow> char \<Rightarrow> bool" where
  "includes_str s c = (c \<in> set s)"

section \<open>\<^verbatim>\<open>ReactRenderer.stripBasePath\<close>\<close>

text \<open>
  \<^verbatim>\<open>
  private stripBasePath(fullyQualifiedPath: string, base: string) {
    if (fullyQualifiedPath.startsWith(base)) {
      const baseless = fullyQualifiedPath.slice(base.length)
      if (baseless == '') { return '/' } else { return baseless }
    } else {
      return fullyQualifiedPath
    }
  }
  \<close>
\<close>

definition stripBasePath :: "string \<Rightarrow> string \<Rightarrow> string" where
  "stripBasePath fullyQualifiedPath base =
     (if startsWith fullyQualifiedPath base then
        (let baseless = slice fullyQualifiedPath (length base)
         in if baseless = '''' then ''/'' else baseless)
      else fullyQualifiedPath)"

section \<open>The route table\<close>

subsection \<open>\<^verbatim>\<open>routeSortScore\<close> and \<^verbatim>\<open>pathToRegexpify\<close>\<close>

text \<open>
  \<^verbatim>\<open>
  const routeSortScore = (path: string) => {
    if (path.includes('*')) { return 2 }
    else if (path.includes(':')) { return 1 }
    else { return 0 }
  }
  \<close>
\<close>

definition routeSortScore :: "string \<Rightarrow> nat" where
  "routeSortScore path =
     (if includes_str path (CHR ''*'') then 2
      else if includes_str path (CHR '':'') then 1
      else 0)"

text \<open>
  \<^verbatim>\<open>String.prototype.replace\<close> with a string pattern rewrites the first occurrence of the
  pattern only.  \<open>replaceFirst c r s\<close> is that operation for a one-character pattern \<open>c\<close>
  and a replacement \<open>r\<close> without \<^verbatim>\<open>$\<close> escapes.
\<close>

fun replaceFirst :: "char \<Rightarrow> string \<Rightarrow> string \<Rightarrow> string" where
  "replaceFirst c r [] = []"
| "replaceFirst c r (x # xs) = (if x = c then r @ xs else x # replaceFirst c r xs)"

text \<open>
  \<^verbatim>\<open>const pathToRegexpify = (path: string) => path.replace('*', ':splat*')\<close>
\<close>

definition pathToRegexpify :: "string \<Rightarrow> string" where
  "pathToRegexpify path = replaceFirst (CHR ''*'') '':splat*'' path"

subsection \<open>Registrations and the table built by \<^verbatim>\<open>routeTableVitePlugin\<close>\<close>

text \<open>
  \<^verbatim>\<open>RenderableRegistration\<close> of \<^verbatim>\<open>Renderer.ts\<close>.  The document template is a function in
  the source; no code modelled here calls it, so it is kept as the name of the template.
  The optional flag \<^verbatim>\<open>isImperative?: true\<close> is a boolean.
\<close>

record RenderableRegistration =
  layout :: string
  document :: string
  base :: string
  pathPattern :: "string option"
  renderable :: string
  isImperative :: bool

text \<open>
  JavaScript truthiness of a value of type \<^verbatim>\<open>string | null\<close>: \<^verbatim>\<open>null\<close> and the empty
  string are falsy.
\<close>

definition truthy :: "string option \<Rightarrow> bool" where
  "truthy c = (case c of None \<Rightarrow> False | Some s \<Rightarrow> s \<noteq> [])"

text \<open>
  An element of \<^verbatim>\<open>routeableRenderables\<close>.  After the filter (and after
  \<^verbatim>\<open>Object.assign\<close>) only \<^verbatim>\<open>pathPattern\<close> and \<^verbatim>\<open>renderable\<close> of an element are read.
  \<^verbatim>\<open>pathPattern\<close> is a string there; \<^verbatim>\<open>renderable\<close> is missing when
  \<^verbatim>\<open>Object.assign\<close> copied from \<^verbatim>\<open>undefined\<close>.
\<close>

record RouteObject =
  routePathPattern :: string
  routeRenderable :: "string option"

text \<open>
  \<^verbatim>\<open>
  const routeableRenderables = this.renderables.filter(
    (route) => route.base == base && route.pathPattern !== undefined)
  \<close>
\<close>

definition filterRouteable :: "RenderableRegistration list \<Rightarrow> string \<Rightarrow> RouteObject list" where
  "filterRouteable renderables b =
     List.map_filter
       (\<lambda>route. if base route = b
                then (case pathPattern route of
                        None \<Rightarrow> None
                      | Some p \<Rightarrow> Some \<lparr>routePathPattern = p, routeRenderable = Some (renderable route)\<rparr>)
                else None)
       renderables"

text \<open>
  \<^verbatim>\<open>
  if (imperativePathPattern && imperativeRenderable) {
    const routeObject = Object.assign({},
      this.renderables.find((route) => route.renderable == imperativeRenderable),
      { pathPattern: imperativePathPattern })
    routeableRenderables.push(routeObject)
  }
  \<close>
\<close>

definition imperativeRouteObject ::
  "RenderableRegistration list \<Rightarrow> string \<Rightarrow> string \<Rightarrow> RouteObject" where
  "imperativeRouteObject renderables imperativePathPattern imperativeRenderable =
     \<lparr>routePathPattern = imperativePathPattern,
      routeRenderable =
        map_option renderable
          (List.find (\<lambda>route. renderable route = imperativeRenderable) renderables)\<rparr>"

definition routeableRenderables ::
  "RenderableRegistration list \<Rightarrow> string \<Rightarrow> string option \<Rightarrow> string option \<Rightarrow> RouteObject list" where
  "routeableRenderables renderables b imperativePathPattern imperativeRenderable =
     filterRouteable renderables b @
     (case (imperativePathPattern, imperativeRenderable) of
        (Some p, Some r) \<Rightarrow>
          if p \<noteq> [] \<and> r \<noteq> [] then [imperativeRouteObject renderables p r] else []
      | _ \<Rightarrow> [])"

text \<open>
  \<^verbatim>\<open>routeableRenderables.sort((a, b) => routeSortScore(a.pathPattern) - routeSortScore(b.pathPattern))\<close>.
  \<^verbatim>\<open>Array.prototype.sort\<close> is a stable sort (the package requires Node 18), here by
  ascending score; \<^const>\<open>sort_key\<close> is the stable insertion sort of the HOL library.
\<close>

definition sortRoutes :: "RouteObject list \<Rightarrow> RouteObject list" where
  "sortRoutes routes = sort_key (\<lambda>route. routeSortScore (routePathPattern route)) routes"

text \<open>
  \<^verbatim>\<open>
  const pathsToModules = routeableRenderables.map((route) => [
    pathToRegexpify(this.stripBasePath(route.pathPattern, base)), route.renderable ])
  \<close>
  Both templates of the generated module (lazy and eager) print one entry per element of
  \<^verbatim>\<open>pathsToModules\<close>, in the order of the list.
\<close>

definition pathsToModules ::
  "RenderableRegistration list \<Rightarrow> string \<Rightarrow> string option \<Rightarrow> string option
     \<Rightarrow> (string \<times> string option) list" where
  "pathsToModules renderables b imperativePathPattern imperativeRenderable =
     map (\<lambda>route. (pathToRegexpify (stripBasePath (routePathPattern route) b), routeRenderable route))
       (sortRoutes (routeableRenderables renderables b imperativePathPattern imperativeRenderable))"

section \<open>The worker dispatcher: \<^verbatim>\<open>ReactRenderer.workerStreamRender\<close>\<close>

text \<open>
  \<^verbatim>\<open>StreamWorkerEvent\<close> of \<^verbatim>\<open>types.ts\<close>: a stack name and a chunk, the chunk \<^verbatim>\<open>null\<close>
  being the end marker of the stack.
\<close>

datatype stack_name = Head | Tail | Content | Error

record StreamWorkerEvent =
  stack :: stack_name
  content :: "string option"

text \<open>Exceptions of the source as values.\<close>

datatype error = JsError string | TypeError string

text \<open>
  The promise created by \<^verbatim>\<open>new Promise<void>((resolve, reject) => ...)\<close>.  A promise
  settles once: \<^verbatim>\<open>resolve\<close> and \<^verbatim>\<open>reject\<close> on a settled promise do nothing.
\<close>

datatype promise = Pending | Resolved | Rejected error

definition resolve :: "promise \<Rightarrow> promise" where
  "resolve p = (if p = Pending then Resolved else p)"

definition reject :: "error \<Rightarrow> promise \<Rightarrow> promise" where
  "reject e p = (if p = Pending then Rejected e else p)"

text \<open>
  The render bus (\<^verbatim>\<open>RenderBus.ts\<close>) is seen through the calls made on it: the list of
  \<^verbatim>\<open>bus.push(stack, content)\<close> calls, oldest first.
\<close>

type_synonym bus = "(stack_name \<times> string option) list"

text \<open>
  What one call of \<^verbatim>\<open>workerStreamRender\<close> owns: the set \<^verbatim>\<open>expectedStreamEnds\<close>, the
  promise handed to the pool, the bus of the render, and whether \<^verbatim>\<open>messageHandler\<close> is
  registered on the worker (\<^verbatim>\<open>worker.on\<close> / \<^verbatim>\<open>worker.off\<close>).
\<close>

record job =
  expectedStreamEnds :: "stack_name set"
  result :: promise
  jobBus :: bus
  listening :: bool

text \<open>
  \<^verbatim>\<open>
  const cleanup = () => {
    expectedStreamEnds.clear()
    worker.off('message', messageHandler)
  }
  \<close>
\<close>

definition cleanup :: "job \<Rightarrow> job" where
  "cleanup j = j\<lparr>expectedStreamEnds := {}, listening := False\<rparr>"

text \<open>
  \<^verbatim>\<open>
  const messageHandler = ({ stack, content }: StreamWorkerEvent) => {
    if (stack === 'error' && content) {
      reject(new Error(content))
    }
    bus.push(stack, content, false)
    if (content === null) {
      expectedStreamEnds.delete(stack)
      if (expectedStreamEnds.size === 0) {
        cleanup()
        resolve()
      }
    }
  }
  \<close>
  The first test is JavaScript truthiness of \<^verbatim>\<open>content\<close>, the second one is identity
  with \<^verbatim>\<open>null\<close>.
\<close>

definition messageHandler :: "StreamWorkerEvent \<Rightarrow> job \<Rightarrow> job" where
  "messageHandler ev j =
     (let j1 = (case content ev of
                  Some c \<Rightarrow>
                    if stack ev = Error \<and> c \<noteq> [] then j\<lparr>result := reject (JsError c) (result j)\<rparr>
                    else j
                | None \<Rightarrow> j);
          j2 = j1\<lparr>jobBus := jobBus j1 @ [(stack ev, content ev)]\<rparr>
      in if content ev = None then
           (let j3 = j2\<lparr>expectedStreamEnds := expectedStreamEnds j2 - {stack ev}\<rparr>
            in if expectedStreamEnds j3 = {} then
                 (let j4 = cleanup j3 in j4\<lparr>result := resolve (result j4)\<rparr>)
               else j3)
         else j2)"

text \<open>
  The state right after \<^verbatim>\<open>worker.on('message', messageHandler)\<close>: the set seeded by
  \<^verbatim>\<open>new Set(['head', 'tail', 'content', 'error'])\<close>, a pending promise, the handler
  registered.
\<close>

definition newJob :: "bus \<Rightarrow> job" where
  "newJob b = \<lparr>expectedStreamEnds = {Head, Tail, Content, Error}, result = Pending,
               jobBus = b, listening = True\<rparr>"

text \<open>
  \<^verbatim>\<open>entrypointRequirePathForServer\<close>: in development the virtual module id itself, in
  production its entry in the server entrypoint manifest, or an exception.
\<close>

definition entrypointRequirePathForServer ::
  "bool \<Rightarrow> (string \<rightharpoonup> string) \<Rightarrow> string \<Rightarrow> string \<Rightarrow> error + string" where
  "entrypointRequirePathForServer devMode serverEntrypointManifest renderableId entrypointName =
     (if devMode then Inr entrypointName
      else (case serverEntrypointManifest entrypointName of
              None \<Rightarrow>
                Inl (JsError (''Module id '' @ renderableId @
                  '' was not found in the built server entrypoints manifest. Looked for it at '' @
                  entrypointName @ '' in virtual-manifest.json. Was it included in the build?''))
            | Some manifestEntry \<Rightarrow> Inr manifestEntry))"

text \<open>
  \<^verbatim>\<open>workerStreamRender\<close> up to the registration of the handler.  The two exceptions of the
  preamble come first: an entrypoint missing from the manifest, and
  \<^verbatim>\<open>if (!this.workerPool) throw new Error('WorkerPool not setup')\<close>.  The arguments
  are the result of \<^verbatim>\<open>entrypointRequirePathForServer(render)\<close> and whether the pool exists.
\<close>

definition workerStreamRender :: "error + string \<Rightarrow> bool \<Rightarrow> bus \<Rightarrow> error + job" where
  "workerStreamRender requirePath workerPoolSetup b =
     (case requirePath of
        Inl e \<Rightarrow> Inl e
      | Inr _ \<Rightarrow>
          if \<not> workerPoolSetup then Inl (JsError ''WorkerPool not setup'')
          else Inr (newJob b))"

text \<open>
  A message of the worker reaches \<^verbatim>\<open>messageHandler\<close> as long as the handler is registered.
\<close>

definition deliver :: "StreamWorkerEvent \<Rightarrow> job \<Rightarrow> job" where
  "deliver ev j = (if listening j then messageHandler ev j else j)"

definition deliverAll :: "StreamWorkerEvent list \<Rightarrow> job \<Rightarrow> job" where
  "deliverAll evs j = fold deliver evs j"

text \<open>
  The outcome of a job as a function of the events alone: rejected at the first
  \<^verbatim>\<open>error\<close> event whose chunk is truthy, resolved at the end marker that closes the last
  stack still expected, pending before either.
\<close>

fun traceOutcome :: "stack_name set \<Rightarrow> StreamWorkerEvent list \<Rightarrow> promise" where
  "traceOutcome open [] = Pending"
| "traceOutcome open (ev # evs) =
     (case content ev of
        Some c \<Rightarrow>
          if stack ev = Error \<and> c \<noteq> [] then Rejected (JsError c)
          else traceOutcome open evs
      | None \<Rightarrow>
          if open - {stack ev} = {} then Resolved
          else traceOutcome (open - {stack ev}) evs)"

section \<open>The worker pool\<close>

text \<open>
  \<^verbatim>\<open>createPool\<close> and \<^verbatim>\<open>use\<close> come from the package \<^verbatim>\<open>resource-pooler\<close>, whose code is
  not part of the sources; \<^verbatim>\<open>workerStreamRender\<close> only calls
  \<^verbatim>\<open>this.workerPool.use((worker) => new Promise(...))\<close>.

  A worker handle is a number.  A lease records one call of \<^verbatim>\<open>use\<close> that was given a
  handle: the handle, whether the call still holds it, and the job that the callback of
  \<^verbatim>\<open>workerStreamRender\<close> created on it.
\<close>

record lease =
  worker :: nat
  holding :: bool
  leasedJob :: job

record pool =
  idle :: "nat list"
  leases :: "lease list"
  waiting :: "bus list"

text \<open>
  Modelled from the spec: \<^verbatim>\<open>createPool\<close> of \<^verbatim>\<open>resource-pooler\<close> (missing from the
  sources).  ``WorkerHandles are created at pool initialization'': a pool of size \<open>K\<close>
  starts with \<open>K\<close> idle handles, no lease and no caller waiting.
\<close>

definition createPool :: "nat \<Rightarrow> pool" where
  "createPool K = \<lparr>idle = [0..<K], leases = [], waiting = []\<rparr>"

text \<open>
  Modelled from the spec: \<^verbatim>\<open>use\<close> of \<^verbatim>\<open>resource-pooler\<close> (missing from the sources), at
  the moment it lends the handle \<open>w\<close> to a caller: the callback of
  \<^verbatim>\<open>workerStreamRender\<close> runs on the handle and registers its handler (\<^const>\<open>newJob\<close>,
  from the source, on the bus of the caller).
\<close>

definition lend :: "nat \<Rightarrow> bus \<Rightarrow> pool \<Rightarrow> pool" where
  "lend w b p =
     p\<lparr>leases := leases p @ [\<lparr>worker = w, holding = True, leasedJob = newJob b\<rparr>]\<rparr>"

text \<open>
  Modelled from the spec: \<^verbatim>\<open>use\<close> of \<^verbatim>\<open>resource-pooler\<close> (missing from the sources), when
  it is called.  ``On dispatch, the pool lends one idle WorkerHandle (blocking/suspending the
  caller if none is idle -- backpressure is realized as queuing at the pool boundary)'': with
  an idle handle the caller is lent the first one; with none the caller joins the queue of
  the pool.
\<close>

definition use :: "bus \<Rightarrow> pool \<Rightarrow> pool" where
  "use b p =
     (case idle p of
        [] \<Rightarrow> p\<lparr>waiting := waiting p @ [b]\<rparr>
      | w # ws \<Rightarrow> lend w b (p\<lparr>idle := ws\<rparr>))"

text \<open>
  Modelled from the spec: the release of a handle by \<^verbatim>\<open>use\<close> of \<^verbatim>\<open>resource-pooler\<close>
  (missing from the sources).  ``A job borrows a handle for the duration of one render and
  must release it before the handle is reusable'', with callers queued at the pool boundary:
  a released handle is lent to the caller that has waited longest, and is idle when no
  caller waits.
\<close>

definition release :: "nat \<Rightarrow> pool \<Rightarrow> pool" where
  "release w p =
     (case waiting p of
        [] \<Rightarrow> p\<lparr>idle := idle p @ [w]\<rparr>
      | b # bs \<Rightarrow> lend w b (p\<lparr>waiting := bs\<rparr>))"

text \<open>
  Modelled from the spec: when \<^verbatim>\<open>use\<close> of \<^verbatim>\<open>resource-pooler\<close> (missing from the sources)
  releases.  ``The handle is always released back to the pool on both Completed and
  Failed'': a lease that holds its handle gives it back as soon as the promise of its
  callback is settled, resolved or rejected.  \<open>settles w ev l\<close> says that the message
  \<open>ev\<close> of worker \<open>w\<close> settles the promise of the lease \<open>l\<close>, which holds \<open>w\<close>.
\<close>

definition settles :: "nat \<Rightarrow> StreamWorkerEvent \<Rightarrow> lease \<Rightarrow> bool" where
  "settles w ev l =
     (worker l = w \<and> holding l \<and> result (deliver ev (leasedJob l)) \<noteq> Pending)"

text \<open>
  Modelled from the spec: the release by \<^verbatim>\<open>use\<close> of \<^verbatim>\<open>resource-pooler\<close> (missing from
  the sources), on one lease.  The message is delivered to the handler of every job
  created on worker \<open>w\<close> (\<^const>\<open>deliver\<close>, from the source: a handler stays registered
  until its \<^verbatim>\<open>cleanup\<close>), and a lease whose promise the message settles holds its handle
  no longer.
\<close>

definition onMessage :: "nat \<Rightarrow> StreamWorkerEvent \<Rightarrow> lease \<Rightarrow> lease" where
  "onMessage w ev l =
     (if worker l = w
      then l\<lparr>leasedJob := deliver ev (leasedJob l),
             holding := (holding l \<and> \<not> settles w ev l)\<rparr>
      else l)"

text \<open>
  Modelled from the spec: the release by \<^verbatim>\<open>use\<close> of \<^verbatim>\<open>resource-pooler\<close> (missing from
  the sources), on the pool.  The handlers run first; then the handle of every lease that
  the message settles is released.  A caller that is lent the handle now registers its
  handler after the message, and does not receive it.
\<close>

definition workerMessage :: "nat \<Rightarrow> StreamWorkerEvent \<Rightarrow> pool \<Rightarrow> pool" where
  "workerMessage w ev p =
     fold release (map worker (filter (settles w ev) (leases p)))
       (p\<lparr>leases := map (onMessage w ev) (leases p)\<rparr>)"

text \<open>
  The dispatcher runs on one thread: its history is a sequence of calls of
  \<^verbatim>\<open>workerStreamRender\<close> and of messages of workers, in any interleaving.
\<close>

datatype action = Dispatch bus | Message nat StreamWorkerEvent

fun poolStep :: "action \<Rightarrow> pool \<Rightarrow> pool" where
  "poolStep (Dispatch b) p = use b p"
| "poolStep (Message w ev) p = workerMessage w ev p"

definition runPool :: "action list \<Rightarrow> pool \<Rightarrow> pool" where
  "runPool acts p = fold poolStep acts p"

definition borrowed :: "pool \<Rightarrow> nat list" where
  "borrowed p = map worker (filter holding (leases p))"

section \<open>Server side rendering: \<^verbatim>\<open>ssr.tsx\<close>\<close>

text \<open>
  JavaScript values that reach the render tree as props, and React elements as
  \<^verbatim>\<open>React.createElement(type, props, ...children)\<close> builds them.  The location hook
  \<^verbatim>\<open>staticLocationHook(path)\<close> is determined by its path (it is created with
  \<^verbatim>\<open>record = false\<close>, so its \<^verbatim>\<open>navigate\<close> does nothing).
\<close>

datatype jsval =
  JNull
  | JBool bool
  | JStr string
  | JObj "(string \<times> jsval) list"
  | StaticLocationHook string

datatype component = Provider | Router | Layout | Entrypoint | Component string

datatype ReactElement = createElement component jsval "ReactElement list"

text \<open>
  \<^verbatim>\<open>FastifyRendererHook\<close> of \<^verbatim>\<open>types.ts\<close>: every member is optional.  A transform may
  throw.
\<close>

record FastifyRendererHook =
  name :: "string option"
  tails :: "(jsval \<Rightarrow> string) option"
  heads :: "(jsval \<Rightarrow> string) option"
  transform :: "(ReactElement \<Rightarrow> error + ReactElement) option"
  postRenderHeads :: "(jsval \<Rightarrow> string) option"

datatype render_mode = Sync | Streaming

text \<open>
  \<^verbatim>\<open>RenderInput\<close> of \<^verbatim>\<open>types.ts\<close> and \<^verbatim>\<open>RenderArgs\<close> of \<^verbatim>\<open>ssr.tsx\<close>.  Of the module
  built by the server entrypoint plugin, \<^verbatim>\<open>React.createElement\<close> is the constructor
  \<^const>\<open>createElement\<close>, the four components are constructors of \<^typ>\<open>component\<close>, and
  \<^verbatim>\<open>ReactDOMServer.renderToString\<close>, the render capability, is a function that may throw.
\<close>

record RenderInput =
  renderBase :: string
  destination :: string
  bootProps :: jsval
  hooks :: "string list"
  mode :: render_mode

record RenderArgs = RenderInput +
  renderToString :: "ReactElement \<Rightarrow> error + string"

text \<open>
  \<^verbatim>\<open>
  let app: ReactElement = React.createElement(RenderBusContext.Provider, null,
    React.createElement(Router, { base: renderBase, hook: staticLocationHook(destination) },
      React.createElement(Layout,
        { isNavigating: false, navigationDestination: destination, bootProps: bootProps },
        React.createElement(Entrypoint, bootProps))))
  \<close>
\<close>

definition rootElement :: "string \<Rightarrow> string \<Rightarrow> jsval \<Rightarrow> ReactElement" where
  "rootElement rb dest props =
     createElement Provider JNull
       [createElement Router
          (JObj [(''base'', JStr rb), (''hook'', StaticLocationHook dest)])
          [createElement Layout
             (JObj [(''isNavigating'', JBool False),
                    (''navigationDestination'', JStr dest),
                    (''bootProps'', props)])
             [createElement Entrypoint props []]]]"

text \<open>
  \<^verbatim>\<open>const transformers = hooks.map((hook) => require(hook))\<close>: \<^verbatim>\<open>require\<close> looks each
  path up among the modules of the process and throws for a path it cannot resolve.
\<close>

fun requireAll :: "(string \<rightharpoonup> FastifyRendererHook) \<Rightarrow> string list \<Rightarrow> error + FastifyRendererHook list" where
  "requireAll modules [] = Inr []"
| "requireAll modules (path # paths) =
     (case modules path of
        None \<Rightarrow> Inl (JsError (''Cannot find module '' @ path))
      | Some m \<Rightarrow>
          (case requireAll modules paths of
             Inl e \<Rightarrow> Inl e
           | Inr ms \<Rightarrow> Inr (m # ms)))"

text \<open>
  \<^verbatim>\<open>
  for (const hook of transformers) {
    app = hook.transform(app)
  }
  \<close>
  Calling the member \<^verbatim>\<open>transform\<close> of a hook that has none is a \<^verbatim>\<open>TypeError\<close>.
\<close>

fun applyTransforms :: "FastifyRendererHook list \<Rightarrow> ReactElement \<Rightarrow> error + ReactElement" where
  "applyTransforms [] app = Inr app"
| "applyTransforms (hook # rest) app =
     (case transform hook of
        None \<Rightarrow> Inl (TypeError ''hook.transform is not a function'')
      | Some t \<Rightarrow>
          (case t app of
             Inl e \<Rightarrow> Inl e
           | Inr app' \<Rightarrow> applyTransforms rest app'))"

text \<open>
  \<^verbatim>\<open>staticRender({ bootProps, destination, renderBase, module, hooks })\<close> returns the string
  of \<^verbatim>\<open>renderToString(app)\<close> or throws; the members \<^verbatim>\<open>mode\<close> and \<^verbatim>\<open>bus\<close> of its
  argument are not read.
\<close>

definition staticRender :: "(string \<rightharpoonup> FastifyRendererHook) \<Rightarrow> RenderArgs \<Rightarrow> error + string" where
  "staticRender modules args =
     (let app = rootElement (renderBase args) (destination args) (bootProps args)
      in case requireAll modules (hooks args) of
           Inl e \<Rightarrow> Inl e
         | Inr transformers \<Rightarrow>
             (case applyTransforms transformers app of
                Inl e \<Rightarrow> Inl e
              | Inr app' \<Rightarrow> renderToString args app'))"

section \<open>\<^verbatim>\<open>ReactRenderer.wrappedRender\<close>\<close>

text \<open>
  \<^verbatim>\<open>scriptTag\<close> of \<^verbatim>\<open>Renderer.ts\<close>.  The attributes are the entries of the object in
  insertion order, \<^verbatim>\<open>undefined\<close> being \<^const>\<open>None\<close>.
\<close>

fun joinWith :: "string \<Rightarrow> string list \<Rightarrow> string" where
  "joinWith sep [] = []"
| "joinWith sep [x] = x"
| "joinWith sep (x # y # ys) = x @ sep @ joinWith sep (y # ys)"

definition attrsString :: "(string \<times> string option) list \<Rightarrow> string" where
  "attrsString attrs =
     joinWith '' ''
       (map (\<lambda>(key, v). key @ ''='' @ [CHR 0x22] @ v @ [CHR 0x22])
          (List.map_filter (\<lambda>(key, v). map_option (Pair key) v) attrs))"

definition scriptTag :: "string \<Rightarrow> (string \<times> string option) list \<Rightarrow> string" where
  "scriptTag code attrs =
     ''<script type='' @ [CHR 0x22] @ ''module'' @ [CHR 0x22] @ '' '' @ attrsString attrs @ ''>'' @
     code @ ''</script>''"

text \<open>
  What \<^verbatim>\<open>startRenderBus\<close> and \<^verbatim>\<open>wrappedRender\<close> read from the plugin, the render and the
  libraries around them: the mode of the plugin, the nonce of the reply, the text of the
  react-refresh preamble (a fixed template around \<^verbatim>\<open>path.join(viteConfig.base, '@react-refresh')\<close>),
  \<^verbatim>\<open>JSON.stringify(render.props)\<close>, the source of the client entrypoint
  (\<^verbatim>\<open>path.join(assetsHost, entrypointScriptTagSrcForClient(render))\<close>), the pushes of
  \<^verbatim>\<open>pushImportTagsFromManifest\<close> of the plugin, the request url and base of the render,
  the id of the server entrypoint with the manifest, the module loader of the dev server,
  the modules that \<^verbatim>\<open>require\<close> resolves, and whether the worker pool exists.
\<close>

record RenderEnv =
  devMode :: bool
  scriptNonce :: "string option"
  reactRefreshPreamble :: string
  propsJSON :: string
  clientEntrypointSrc :: string
  manifestImportTags :: bus
  requestUrl :: string
  renderBasePath :: string
  renderProps :: jsval
  renderableId :: string
  serverEntrypointName :: string
  serverEntrypointManifest :: "string \<rightharpoonup> string"
  ssrLoadModule :: "string \<Rightarrow> error + (ReactElement \<Rightarrow> error + string)"
  hookPaths :: "string list"
  hookModules :: "string \<rightharpoonup> FastifyRendererHook"
  rendererMode :: render_mode
  workerPoolSetup :: bool

text \<open>
  \<^verbatim>\<open>
  const bus = new RenderBus()
  if (this.plugin.devMode) { bus.push('tail', this.reactRefreshScriptTag(scriptNonce)) }
  bus.push('tail', scriptTag(`window.__FSTR_PROPS=${JSON.stringify(render.props)};`, { nonce: scriptNonce }))
  if (this.plugin.devMode) {
    bus.push('tail', scriptTag(``, { src: path.join(...), nonce: scriptNonce }))
  } else {
    this.plugin.pushImportTagsFromManifest(bus, manifestEntryName, true, styleNonce, scriptNonce)
  }
  return bus
  \<close>
\<close>

definition startRenderBus :: "RenderEnv \<Rightarrow> bus" where
  "startRenderBus env =
     (if devMode env
      then [(Tail, Some (scriptTag (reactRefreshPreamble env) [(''nonce'', scriptNonce env)]))]
      else []) @
     [(Tail, Some (scriptTag (''window.__FSTR_PROPS='' @ propsJSON env @ '';'')
                     [(''nonce'', scriptNonce env)]))] @
     (if devMode env
      then [(Tail, Some (scriptTag [] [(''src'', Some (clientEntrypointSrc env)),
                                        (''nonce'', scriptNonce env)]))]
      else manifestImportTags env)"

text \<open>
  \<^verbatim>\<open>
  const devRender = () => {
    const requirePath = this.entrypointRequirePathForServer(render)
    return this.devServer!.ssrLoadModule(requirePath).then((module) =>
      staticRender({ module: module.default, renderBase: render.base, bootProps: render.props,
        destination, hooks: this.hookPaths, mode: this.options.mode, bus }))
  }
  \<close>
  The value is the outcome of the promise that \<^verbatim>\<open>devRender\<close> returns: the string of
  \<^verbatim>\<open>staticRender\<close>, or the rejection.
\<close>

definition devRender :: "RenderEnv \<Rightarrow> string \<Rightarrow> string \<Rightarrow> error + string" where
  "devRender env requirePath dest =
     (case ssrLoadModule env requirePath of
        Inl e \<Rightarrow> Inl e
      | Inr render \<Rightarrow>
          staticRender (hookModules env)
            \<lparr>renderBase = renderBasePath env, destination = dest, bootProps = renderProps env,
             hooks = hookPaths env, mode = rendererMode env, renderToString = render\<rparr>)"

text \<open>
  What a call of \<^verbatim>\<open>wrappedRender\<close> leaves behind: the pushes on the bus of the render,
  the errors written by \<^verbatim>\<open>console.error\<close>, and in production the job handed to the
  worker pool.
\<close>

record renderState =
  renderBus :: bus
  console :: "error list"
  workerJob :: "job option"

text \<open>
  \<^verbatim>\<open>
  const bus = this.startRenderBus(render)
  const response = render.reply.send(render.document({ content: bus.stack('content'), ... }))
  try {
    const destination = this.stripBasePath(render.request.url, render.base)
    const devRender = ...
    const prodRender = () => this.workerStreamRender(bus, render)
    const startRender = this.plugin.devMode ? devRender : prodRender
    void startRender().catch((e) => { console.error('An error occured while rendering', e) })
  } catch (error: unknown) {
    this.devServer?.ssrFixStacktrace(error as Error)
    throw error
  }
  return response
  \<close>
  An exception of the preamble of \<^verbatim>\<open>devRender\<close> or \<^verbatim>\<open>workerStreamRender\<close> is thrown on;
  a rejection of the promise of \<^verbatim>\<open>startRender()\<close> is logged.  The value that the promise
  of \<^verbatim>\<open>devRender\<close> resolves to is dropped by \<^verbatim>\<open>void\<close>.
\<close>

definition wrappedRender :: "RenderEnv \<Rightarrow> error + renderState" where
  "wrappedRender env =
     (let b = startRenderBus env;
          dest = stripBasePath (requestUrl env) (renderBasePath env);
          requirePath = entrypointRequirePathForServer (devMode env)
                          (serverEntrypointManifest env) (renderableId env) (serverEntrypointName env)
      in if devMode env then
           (case requirePath of
              Inl e \<Rightarrow> Inl e
            | Inr path \<Rightarrow>
                (case devRender env path dest of
                   Inl e \<Rightarrow> Inr \<lparr>renderBus = b, console = [e], workerJob = None\<rparr>
                 | Inr _ \<Rightarrow> Inr \<lparr>renderBus = b, console = [], workerJob = None\<rparr>))
         else
           (case workerStreamRender requirePath (workerPoolSetup env) b of
              Inl e \<Rightarrow> Inl e
            | Inr j \<Rightarrow> Inr \<lparr>renderBus = b, console = [], workerJob = Some j\<rparr>))"

text \<open>The chunks and end markers that a bus received on one stack.\<close>

definition pushesOn :: "stack_name \<Rightarrow> bus \<Rightarrow> string option list" where
  "pushesOn s b = map snd (filter (\<lambda>push. fst push = s) b)"

section \<open>A reply sent before the render phase\<close>

text \<open>
  The reply of a request: whether it was sent, its status code and its body, the body
  being a text or the document streamed from the stacks of a render bus.
\<close>

datatype body = NoBody | Text string | DocumentStream

record reply =
  sent :: bool
  statusCode :: nat
  payload :: body

text \<open>
  Modelled from the spec: the route handler that the plugin puts around a render
  (\<^verbatim>\<open>Plugin.ts\<close>, missing from the sources; \<^verbatim>\<open>routes.spec.ts\<close> has its tests).  The
  upstream collaborators, pre-processing hooks and then the handler that supplies the props,
  run first, each on the reply.  ``If an upstream collaborator has already sent a response
  before the render phase begins, the pipeline must detect this and perform no bus activity
  at all'': then no bus is started and the reply is left as it is.  Otherwise the render of
  the source (\<^const>\<open>wrappedRender\<close>) starts the bus and sends the document.
\<close>

definition renderRoute ::
  "(reply \<Rightarrow> reply) list \<Rightarrow> RenderEnv \<Rightarrow> reply \<Rightarrow> error + (reply \<times> bus)" where
  "renderRoute upstream env r0 =
     (let r = fold (\<lambda>collaborator. collaborator) upstream r0
      in if sent r then Inr (r, [])
         else (case wrappedRender env of
                 Inl e \<Rightarrow> Inl e
               | Inr st \<Rightarrow> Inr (r\<lparr>sent := True, payload := DocumentStream\<rparr>, renderBus st)))"

text \<open>
  \<^verbatim>\<open>reply.code(201).send('hello')\<close> of the routes \<^verbatim>\<open>/early-hook-reply\<close> and
  \<^verbatim>\<open>/early-handler-reply\<close> of \<^verbatim>\<open>routes.spec.ts\<close>, on a reply not sent yet.
\<close>

definition codeSend :: "nat \<Rightarrow> string \<Rightarrow> reply \<Rightarrow> reply" where
  "codeSend c b r = (if sent r then r else \<lparr>sent = True, statusCode = c, payload = Text b\<rparr>)"

section \<open>Registrations used in examples\<close>

text \<open>
  A renderable mounted at a path pattern, as \<^verbatim>\<open>server.get(pattern, { render: ... }, handler)\<close>
  registers it under the base \<^verbatim>\<open>''\<close> of \<^verbatim>\<open>routes.spec.ts\<close>, and a renderable
  registered for imperative rendering (\<^verbatim>\<open>registerRenderable\<close>), which has no path pattern.
\<close>

definition mountAt :: "string \<Rightarrow> RenderableRegistration" where
  "mountAt p = \<lparr>layout = ''layout.tsx'', document = ''document'', base = [],
      pathPattern = Some p, renderable = ''view.tsx'', isImperative = False\<rparr>"

definition imperativeView :: RenderableRegistration where
  "imperativeView = \<lparr>layout = ''layout.tsx'', document = ''document'', base = [],
      pathPattern = None, renderable = ''imperative.tsx'', isImperative = True\<rparr>"

section \<open>The invariant of the pool\<close>

text \<open>
  Every handle of a pool of size \<open>K\<close> is, exactly once, idle or held by a lease; a lease
  that holds a handle has a pending promise; the handler of a pending promise is registered;
  and no caller waits while a handle is idle.
\<close>

definition leasesOk :: "pool \<Rightarrow> bool" where
  "leasesOk p \<longleftrightarrow>
     (\<forall>l \<in> set (leases p). holding l \<longrightarrow> result (leasedJob l) = Pending) \<and>
     (\<forall>l \<in> set (leases p). result (leasedJob l) = Pending \<longrightarrow> listening (leasedJob l)) \<and>
     (waiting p \<noteq> [] \<longrightarrow> idle p = [])"

definition poolInv :: "nat \<Rightarrow> pool \<Rightarrow> bool" where
  "poolInv K p \<longleftrightarrow> mset (idle p) + mset (borrowed p) = mset [0..<K] \<and> leasesOk p"

section \<open>Hooks and renders used in examples\<close>

text \<open>
  A hook that only contributes to the head (as \<^verbatim>\<open>hooks/simpleHeadHooks.ts\<close> of the test
  options is named), a hook that wraps the application into a component (as
  \<^verbatim>\<open>hooks/simpleTransformHook.ts\<close>), a render capability that succeeds with the markup
  that \<^verbatim>\<open>routes.spec.ts\<close> expects, and one that throws.
\<close>

definition headOnlyHook :: FastifyRendererHook where
  "headOnlyHook = \<lparr>name = Some ''head'', tails = None,
      heads = Some (\<lambda>_. ''<style></style>''), transform = None, postRenderHeads = None\<rparr>"

definition wrapHook :: "string \<Rightarrow> FastifyRendererHook" where
  "wrapHook c = \<lparr>name = Some c, tails = None, heads = None,
      transform = Some (\<lambda>app. Inr (createElement (Component c) JNull [app])),
      postRenderHeads = None\<rparr>"

definition renderOk :: "ReactElement \<Rightarrow> error + string" where
  "renderOk app = Inr ''<h1>1</h1><p>2</p>''"

definition renderThrows :: "ReactElement \<Rightarrow> error + string" where
  "renderThrows app = Inl (JsError ''fail'')"

text \<open>
  A render of \<^verbatim>\<open>/render-test\<close> under the options of \<^verbatim>\<open>routes.spec.ts\<close>
  (\<^verbatim>\<open>devMode: true\<close>, \<^verbatim>\<open>mode: 'sync'\<close>, base \<^verbatim>\<open>''\<close>), with no hooks, on a given
  render capability.
\<close>

definition devSyncEnv :: "(ReactElement \<Rightarrow> error + string) \<Rightarrow> RenderEnv" where
  "devSyncEnv capability =
     \<lparr>devMode = True, scriptNonce = None, reactRefreshPreamble = ''preamble'',
      propsJSON = ''{}'', clientEntrypointSrc = ''/hydrate.jsx'', manifestImportTags = [],
      requestUrl = ''/render-test'', renderBasePath = [], renderProps = JObj [],
      renderableId = ''test-module.tsx'', serverEntrypointName = ''/ssr.jsx'',
      serverEntrypointManifest = Map.empty, ssrLoadModule = (\<lambda>path. Inr capability),
      hookPaths = [], hookModules = Map.empty, rendererMode = Sync,
      workerPoolSetup = False\<rparr>"

text \<open>
  What \<^verbatim>\<open>require\<close> gives for the module of a hook with a counter, whose \<^verbatim>\<open>heads()\<close> is
  the style that \<^verbatim>\<open>routes.spec.ts\<close> looks for in the first response, with a given
  \<^verbatim>\<open>transform\<close> member; and the render of \<^verbatim>\<open>/render-test\<close> in development mode with that
  hook registered.
\<close>

definition counterModule ::
  "(ReactElement \<Rightarrow> error + ReactElement) option \<Rightarrow> FastifyRendererHook" where
  "counterModule t = \<lparr>name = Some ''thunk counter'', tails = None,
      heads = Some (\<lambda>_. ''<style>#0 {}</style>''), transform = t, postRenderHeads = None\<rparr>"

definition devHookEnv :: "(ReactElement \<Rightarrow> error + ReactElement) option \<Rightarrow> RenderEnv" where
  "devHookEnv t =
     (devSyncEnv renderOk)
       \<lparr>hookPaths := [''thunkCounterHook.ts''],
        hookModules := [''thunkCounterHook.ts'' \<mapsto> counterModule t]\<rparr>"

section \<open>Properties of \<^verbatim>\<open>stripBasePath\<close> and \<^verbatim>\<open>pathToRegexpify\<close>\<close>

lemma startsWith_iff: "startsWith p b \<longleftrightarrow> (\<exists>s. p = b @ s)"
proof
  assume "startsWith p b"
  then have "take (length b) p = b" by (simp add: startsWith_def)
  then have "p = b @ drop (length b) p" by (metis append_take_drop_id)
  then show "\<exists>s. p = b @ s" ..
next
  assume "\<exists>s. p = b @ s"
  then show "startsWith p b" by (auto simp: startsWith_def)
qed

lemma stripBasePath_append: "stripBasePath (b @ s) b = (if s = [] then ''/'' else s)"
  by (simp add: stripBasePath_def startsWith_def slice_def)

lemma stripBasePath_other: "\<not> startsWith p b \<Longrightarrow> stripBasePath p b = p"
  by (simp add: stripBasePath_def)

text \<open>
  C9.  For every path \<open>p\<close> and base \<open>b\<close>: \<^verbatim>\<open>stripBasePath\<close> of the base itself is
  \<^verbatim>\<open>'/'\<close>; of a path that is the base followed by a non-empty rest \<open>s\<close> it is that
  rest; and a path that does not start with the base is returned unchanged.
\<close>

theorem stripBasePath_cases:
  "stripBasePath b b = ''/'' \<and>
   (s \<noteq> [] \<longrightarrow> stripBasePath (b @ s) b = s) \<and>
   ((\<nexists>t. p = b @ t) \<longrightarrow> stripBasePath p b = p)"
proof (intro conjI impI)
  show "stripBasePath b b = ''/''"
    using stripBasePath_append [of b "[]"] by simp
next
  assume "s \<noteq> []"
  then show "stripBasePath (b @ s) b = s"
    by (simp add: stripBasePath_append)
next
  assume "\<nexists>t. p = b @ t"
  then have "\<not> startsWith p b" by (simp add: startsWith_iff)
  then show "stripBasePath p b = p" by (rule stripBasePath_other)
qed

theorem stripBasePath_cases_witness:
  "stripBasePath ''/red'' ''/red'' = ''/'' \<and>
   ''/about'' \<noteq> [] \<and> stripBasePath (''/red'' @ ''/about'') ''/red'' = ''/about'' \<and>
   (\<nexists>t. ''/blue/about'' = ''/red'' @ t) \<and>
   stripBasePath ''/blue/about'' ''/red'' = ''/blue/about''"
  using stripBasePath_cases [of "''/red''" "''/about''" "''/blue/about''"] by simp

lemma replaceFirst_split: "c \<notin> set xs \<Longrightarrow> replaceFirst c r (xs @ c # ys) = xs @ r @ ys"
  by (induction xs) auto

lemma replaceFirst_absent: "c \<notin> set xs \<Longrightarrow> replaceFirst c r xs = xs"
  by (induction xs) auto

text \<open>
  C10.  \<^verbatim>\<open>pathToRegexpify\<close> rewrites the first \<^verbatim>\<open>*\<close> of a pattern to \<^verbatim>\<open>:splat*\<close> and
  nothing else: with no \<^verbatim>\<open>*\<close> in \<open>xs\<close>, the pattern \<open>xs * ys\<close> becomes
  \<open>xs :splat* ys\<close>, whatever \<open>ys\<close> is, so every later \<^verbatim>\<open>*\<close> stays as it is in the
  client route table; a pattern without \<^verbatim>\<open>*\<close> is unchanged.
\<close>

theorem pathToRegexpify_first_only:
  "(CHR ''*'' \<notin> set xs \<longrightarrow>
      pathToRegexpify (xs @ ''*'' @ ys) = xs @ '':splat*'' @ ys) \<and>
   (CHR ''*'' \<notin> set p \<longrightarrow> pathToRegexpify p = p)"
proof (intro conjI impI)
  assume "CHR ''*'' \<notin> set xs"
  then show "pathToRegexpify (xs @ ''*'' @ ys) = xs @ '':splat*'' @ ys"
    using replaceFirst_split [of "CHR ''*''" xs "'':splat*''" ys]
    by (simp add: pathToRegexpify_def)
next
  assume "CHR ''*'' \<notin> set p"
  then show "pathToRegexpify p = p"
    by (simp add: pathToRegexpify_def replaceFirst_absent)
qed

theorem pathToRegexpify_first_only_witness:
  "CHR ''*'' \<notin> set ''/files/'' \<and>
   pathToRegexpify (''/files/'' @ ''*'' @ ''/raw/*'') = ''/files/'' @ '':splat*'' @ ''/raw/*'' \<and>
   CHR ''*'' \<notin> set ''/about'' \<and> pathToRegexpify ''/about'' = ''/about''"
  using pathToRegexpify_first_only [of "''/files/''" "''/raw/*''" "''/about''"]
  by simp

section \<open>Order of the route table\<close>

lemma routeSortScore_lt_iff:
  "routeSortScore p < routeSortScore q \<longleftrightarrow>
     (CHR ''*'' \<notin> set p \<and> CHR '':'' \<notin> set p \<and> (CHR '':'' \<in> set q \<or> CHR ''*'' \<in> set q)) \<or>
     (CHR ''*'' \<notin> set p \<and> CHR ''*'' \<in> set q)"
  by (auto simp: routeSortScore_def includes_str_def)

lemma sortRoutes_sorted:
  "sorted (map routeSortScore (map routePathPattern (sortRoutes routes)))"
  unfolding sortRoutes_def
  using sorted_sort_key [of "\<lambda>route. routeSortScore (routePathPattern route)" routes]
  by (simp add: comp_def)

lemma sortRoutes_precedes:
  assumes "ps = map routePathPattern (sortRoutes routes)"
    and "i < length ps" and "j < length ps"
    and "routeSortScore (ps ! i) < routeSortScore (ps ! j)"
  shows "i < j"
proof (rule ccontr)
  assume "\<not> i < j"
  then have "j \<le> i" by simp
  have "sorted (map routeSortScore ps)"
    using assms(1) sortRoutes_sorted by simp
  then have "map routeSortScore ps ! j \<le> map routeSortScore ps ! i"
    using \<open>j \<le> i\<close> assms(2) by (intro sorted_nth_mono) simp_all
  then show False using assms(2,3,4) by simp
qed

lemma sortRoutes_stable:
  "filter (\<lambda>p. routeSortScore p = k) (map routePathPattern (sortRoutes routes)) =
   filter (\<lambda>p. routeSortScore p = k) (map routePathPattern routes)"
proof -
  have "filter (\<lambda>r. routeSortScore (routePathPattern r) = k) (sortRoutes routes) =
        filter (\<lambda>r. routeSortScore (routePathPattern r) = k) routes"
    unfolding sortRoutes_def
    by (rule sort_key_stable [of "\<lambda>route. routeSortScore (routePathPattern route)" k routes])
  then show ?thesis by (simp add: filter_map comp_def)
qed

lemma filterRouteable_patterns:
  "map routePathPattern (filterRouteable renderables b) =
   List.map_filter pathPattern (filter (\<lambda>r. base r = b) renderables)"
  by (induction renderables)
     (auto simp: filterRouteable_def split: option.splits)

lemma routeableRenderables_patterns:
  "map routePathPattern (routeableRenderables renderables b ipp ir) =
   List.map_filter pathPattern (filter (\<lambda>r. base r = b) renderables) @
   (if truthy ipp \<and> truthy ir then [the ipp] else [])"
  by (auto simp: routeableRenderables_def filterRouteable_patterns truthy_def
        imperativeRouteObject_def split: option.splits)

lemma pathsToModules_patterns:
  "map fst (pathsToModules renderables b ipp ir) =
   map (\<lambda>p. pathToRegexpify (stripBasePath p b))
     (map routePathPattern (sortRoutes (routeableRenderables renderables b ipp ir)))"
  by (simp add: pathsToModules_def comp_def)

lemma sortRoutes_example:
  "\<forall>order \<in> set [[''/a'', ''/:id'', ''/*''], [''/a'', ''/*'', ''/:id''], [''/:id'', ''/a'', ''/*''],
                     [''/:id'', ''/*'', ''/a''], [''/*'', ''/a'', ''/:id''], [''/*'', ''/:id'', ''/a'']].
    map routePathPattern (sortRoutes (routeableRenderables (map mountAt order) [] None None)) = [''/a'', ''/:id'', ''/*'']"
  by (simp add: sortRoutes_def routeableRenderables_def filterRouteable_def mountAt_def
        routeSortScore_def includes_str_def)

text \<open>
  C2.  Let \<open>ps\<close> be the registered patterns of the routes of a base path in the order of
  the generated table.  Every static pattern (no \<^verbatim>\<open>:\<close> and no \<^verbatim>\<open>*\<close>) comes before every
  pattern with \<^verbatim>\<open>:\<close> or \<^verbatim>\<open>*\<close>, and every pattern without \<^verbatim>\<open>*\<close> (so every
  single-parameter pattern) comes before every pattern with \<^verbatim>\<open>*\<close>.  The patterns of one
  rank are in the table in the order the list had before the sort: the patterns of the
  registrations of that base in registration order, then the pattern of the imperative route
  when the table is requested with one.  The entries of the table are these patterns,
  stripped of the base and rewritten by \<^verbatim>\<open>pathToRegexpify\<close>, in the same order.  Registered
  in any of the six orders, \<^verbatim>\<open>/a\<close>, \<^verbatim>\<open>/:id\<close> and \<^verbatim>\<open>/*\<close> come out as
  \<^verbatim>\<open>/a\<close>, \<^verbatim>\<open>/:id\<close>, \<^verbatim>\<open>/*\<close>.
\<close>

theorem route_table_precedence:
  assumes ps: "ps = map routePathPattern
                      (sortRoutes (routeableRenderables renderables b imperativePathPattern imperativeRenderable))"
  shows
    "(\<forall>i j. i < length ps \<and> j < length ps \<and>
        CHR ''*'' \<notin> set (ps ! i) \<and> CHR '':'' \<notin> set (ps ! i) \<and>
        (CHR '':'' \<in> set (ps ! j) \<or> CHR ''*'' \<in> set (ps ! j)) \<longrightarrow> i < j) \<and>
     (\<forall>i j. i < length ps \<and> j < length ps \<and>
        CHR ''*'' \<notin> set (ps ! i) \<and> CHR ''*'' \<in> set (ps ! j) \<longrightarrow> i < j) \<and>
     (\<forall>k. filter (\<lambda>p. routeSortScore p = k) ps =
          filter (\<lambda>p. routeSortScore p = k)
            (List.map_filter pathPattern (filter (\<lambda>r. base r = b) renderables) @
             (if truthy imperativePathPattern \<and> truthy imperativeRenderable
              then [the imperativePathPattern] else []))) \<and>
     map fst (pathsToModules renderables b imperativePathPattern imperativeRenderable) =
       map (\<lambda>p. pathToRegexpify (stripBasePath p b)) ps \<and>
     (\<forall>order \<in> set [[''/a'', ''/:id'', ''/*''], [''/a'', ''/*'', ''/:id''],
                      [''/:id'', ''/a'', ''/*''], [''/:id'', ''/*'', ''/a''],
                      [''/*'', ''/a'', ''/:id''], [''/*'', ''/:id'', ''/a'']].
        map routePathPattern (sortRoutes (routeableRenderables (map mountAt order) [] None None)) =
          [''/a'', ''/:id'', ''/*''])"
proof (intro conjI)
  show "\<forall>i j. i < length ps \<and> j < length ps \<and>
        CHR ''*'' \<notin> set (ps ! i) \<and> CHR '':'' \<notin> set (ps ! i) \<and>
        (CHR '':'' \<in> set (ps ! j) \<or> CHR ''*'' \<in> set (ps ! j)) \<longrightarrow> i < j"
    using sortRoutes_precedes [OF ps] routeSortScore_lt_iff by blast
next
  show "\<forall>i j. i < length ps \<and> j < length ps \<and>
        CHR ''*'' \<notin> set (ps ! i) \<and> CHR ''*'' \<in> set (ps ! j) \<longrightarrow> i < j"
    using sortRoutes_precedes [OF ps] routeSortScore_lt_iff by blast
next
  show "\<forall>k. filter (\<lambda>p. routeSortScore p = k) ps =
          filter (\<lambda>p. routeSortScore p = k)
            (List.map_filter pathPattern (filter (\<lambda>r. base r = b) renderables) @
             (if truthy imperativePathPattern \<and> truthy imperativeRenderable
              then [the imperativePathPattern] else []))"
    unfolding ps sortRoutes_stable routeableRenderables_patterns by simp
next
  show "map fst (pathsToModules renderables b imperativePathPattern imperativeRenderable) =
       map (\<lambda>p. pathToRegexpify (stripBasePath p b)) ps"
    unfolding ps by (rule pathsToModules_patterns)
next
  show "\<forall>order \<in> set [[''/a'', ''/:id'', ''/*''], [''/a'', ''/*'', ''/:id''],
                      [''/:id'', ''/a'', ''/*''], [''/:id'', ''/*'', ''/a''],
                      [''/*'', ''/a'', ''/:id''], [''/*'', ''/:id'', ''/a'']].
        map routePathPattern (sortRoutes (routeableRenderables (map mountAt order) [] None None)) =
          [''/a'', ''/:id'', ''/*'']"
    by (rule sortRoutes_example)
qed

theorem route_table_precedence_witness:
  "map fst (pathsToModules (map mountAt [''/*'', ''/:id'', ''/b'', ''/:name/edit'', ''/a'']) [] None None) =
     [''/b'', ''/a'', ''/:id'', ''/:name/edit'', ''/:splat*'']"
proof -
  have ps: "[''/b'', ''/a'', ''/:id'', ''/:name/edit'', ''/*''] =
        map routePathPattern
          (sortRoutes (routeableRenderables
             (map mountAt [''/*'', ''/:id'', ''/b'', ''/:name/edit'', ''/a'']) [] None None))"
    by (simp add: sortRoutes_def routeableRenderables_def filterRouteable_def mountAt_def
          routeSortScore_def includes_str_def)
  show ?thesis
    using route_table_precedence [OF ps]
    by (simp add: pathToRegexpify_def stripBasePath_def startsWith_def slice_def)
qed

section \<open>Imperative renderables and the route table\<close>

lemma filterRouteable_drops_imperative:
  "filterRouteable renderables b =
   filterRouteable (filter (\<lambda>r. pathPattern r \<noteq> None) renderables) b"
  by (induction renderables) (auto simp: filterRouteable_def)

lemma filterRouteable_origin:
  "ro \<in> set (filterRouteable renderables b) \<Longrightarrow>
   \<exists>r \<in> set renderables. base r = b \<and> pathPattern r = Some (routePathPattern ro) \<and>
      routeRenderable ro = Some (renderable r)"
  by (induction renderables) (auto simp: filterRouteable_def split: if_splits option.splits)

lemma routeableRenderables_plain:
  "\<not> (truthy ipp \<and> truthy ir) \<Longrightarrow>
   routeableRenderables renderables b ipp ir = filterRouteable renderables b"
  by (auto simp: routeableRenderables_def truthy_def split: option.splits)

lemma routeableRenderables_imperative:
  "truthy ipp \<and> truthy ir \<Longrightarrow>
   routeableRenderables renderables b ipp ir =
   filterRouteable renderables b @ [imperativeRouteObject renderables (the ipp) (the ir)]"
  by (auto simp: routeableRenderables_def truthy_def split: option.splits)

text \<open>
  C8, as stated, fails: requested with \<^verbatim>\<open>imperativePathPattern\<close> and
  \<^verbatim>\<open>imperativeRenderable\<close>, the table has an entry for a renderable that was registered
  without a path pattern.
\<close>

theorem imperative_in_route_table_counterexample:
  "pathPattern imperativeView = None \<and>
   (''/imperative'', Some (renderable imperativeView)) \<in>
     set (pathsToModules [mountAt ''/a'', imperativeView] []
            (Some ''/imperative'') (Some ''imperative.tsx''))"
  by (simp add: pathsToModules_def sortRoutes_def routeableRenderables_def filterRouteable_def
        imperativeRouteObject_def mountAt_def imperativeView_def routeSortScore_def
        includes_str_def pathToRegexpify_def stripBasePath_def startsWith_def slice_def)

text \<open>
  C8, amended.  For every base path the filter that selects the routes of the table leaves
  out every registration without a path pattern: the selection is the same with these
  registrations removed, and each selected route comes from a registration of that base with
  a path pattern.  Requested without \<^verbatim>\<open>imperativePathPattern\<close> or without
  \<^verbatim>\<open>imperativeRenderable\<close> (missing or empty), the table is the table of the path-mounted
  registrations.  Requested with both, the routes are the selected ones and one more, the
  route object of the renderable named by \<^verbatim>\<open>imperativeRenderable\<close> under the pattern
  \<^verbatim>\<open>imperativePathPattern\<close>.
\<close>

theorem imperative_excluded_by_filter:
  "filterRouteable renderables b =
     filterRouteable (filter (\<lambda>r. pathPattern r \<noteq> None) renderables) b \<and>
   (\<forall>ro \<in> set (filterRouteable renderables b).
      \<exists>r \<in> set renderables. base r = b \<and> pathPattern r = Some (routePathPattern ro) \<and>
        routeRenderable ro = Some (renderable r)) \<and>
   (\<not> (truthy imperativePathPattern \<and> truthy imperativeRenderable) \<longrightarrow>
      pathsToModules renderables b imperativePathPattern imperativeRenderable =
      pathsToModules (filter (\<lambda>r. pathPattern r \<noteq> None) renderables) b None None) \<and>
   (truthy imperativePathPattern \<and> truthy imperativeRenderable \<longrightarrow>
      routeableRenderables renderables b imperativePathPattern imperativeRenderable =
      filterRouteable renderables b @
      [imperativeRouteObject renderables (the imperativePathPattern) (the imperativeRenderable)])"
proof (intro conjI ballI impI)
  show "filterRouteable renderables b =
     filterRouteable (filter (\<lambda>r. pathPattern r \<noteq> None) renderables) b"
    by (rule filterRouteable_drops_imperative)
next
  fix ro assume "ro \<in> set (filterRouteable renderables b)"
  then show "\<exists>r \<in> set renderables. base r = b \<and> pathPattern r = Some (routePathPattern ro) \<and>
        routeRenderable ro = Some (renderable r)"
    by (rule filterRouteable_origin)
next
  assume no: "\<not> (truthy imperativePathPattern \<and> truthy imperativeRenderable)"
  have "routeableRenderables renderables b imperativePathPattern imperativeRenderable =
        filterRouteable (filter (\<lambda>r. pathPattern r \<noteq> None) renderables) b"
    using routeableRenderables_plain [OF no] filterRouteable_drops_imperative by simp
  moreover have "routeableRenderables (filter (\<lambda>r. pathPattern r \<noteq> None) renderables) b None None =
        filterRouteable (filter (\<lambda>r. pathPattern r \<noteq> None) renderables) b"
    by (rule routeableRenderables_plain) (simp add: truthy_def)
  ultimately show "pathsToModules renderables b imperativePathPattern imperativeRenderable =
      pathsToModules (filter (\<lambda>r. pathPattern r \<noteq> None) renderables) b None None"
    by (simp add: pathsToModules_def)
next
  assume "truthy imperativePathPattern \<and> truthy imperativeRenderable"
  then show "routeableRenderables renderables b imperativePathPattern imperativeRenderable =
      filterRouteable renderables b @
      [imperativeRouteObject renderables (the imperativePathPattern) (the imperativeRenderable)]"
    by (rule routeableRenderables_imperative)
qed

theorem imperative_excluded_by_filter_witness:
  "\<not> (truthy None \<and> truthy None) \<and>
   pathsToModules [mountAt ''/a'', imperativeView, mountAt ''/:id''] [] None None =
     [(''/a'', Some ''view.tsx''), (''/:id'', Some ''view.tsx'')] \<and>
   truthy (Some ''/imperative'') \<and> truthy (Some ''imperative.tsx'') \<and>
   routeableRenderables [mountAt ''/a'', imperativeView, mountAt ''/:id''] []
       (Some ''/imperative'') (Some ''imperative.tsx'') =
     [\<lparr>routePathPattern = ''/a'', routeRenderable = Some ''view.tsx''\<rparr>,
      \<lparr>routePathPattern = ''/:id'', routeRenderable = Some ''view.tsx''\<rparr>,
      \<lparr>routePathPattern = ''/imperative'', routeRenderable = Some ''imperative.tsx''\<rparr>]"
  using imperative_excluded_by_filter
          [of "[mountAt ''/a'', imperativeView, mountAt ''/:id'']" "[]" None None]
        imperative_excluded_by_filter
          [of "[mountAt ''/a'', imperativeView, mountAt ''/:id'']" "[]"
              "Some ''/imperative''" "Some ''imperative.tsx''"]
  by (simp add: pathsToModules_def sortRoutes_def routeableRenderables_def filterRouteable_def
        imperativeRouteObject_def mountAt_def imperativeView_def routeSortScore_def truthy_def
        includes_str_def pathToRegexpify_def stripBasePath_def startsWith_def slice_def)

section \<open>Outcome of a dispatched job\<close>

lemma messageHandler_expected:
  "expectedStreamEnds (messageHandler ev j) =
     (if content ev = None then expectedStreamEnds j - {stack ev} else expectedStreamEnds j)"
  by (auto simp: messageHandler_def cleanup_def Let_def split: option.splits)

lemma messageHandler_resolved:
  "result j = Pending \<Longrightarrow>
   result (messageHandler ev j) = Resolved \<longleftrightarrow>
     content ev = None \<and> expectedStreamEnds j - {stack ev} = {}"
  by (auto simp: messageHandler_def cleanup_def resolve_def reject_def Let_def
        split: option.splits)

lemma messageHandler_rejected:
  "result j = Pending \<Longrightarrow>
   result (messageHandler ev j) = Rejected (JsError c) \<longleftrightarrow>
     stack ev = Error \<and> content ev = Some c \<and> c \<noteq> []"
  by (auto simp: messageHandler_def cleanup_def resolve_def reject_def Let_def
        split: option.splits)

lemma messageHandler_settled:
  "result j \<noteq> Pending \<Longrightarrow> result (messageHandler ev j) = result j"
  by (auto simp: messageHandler_def cleanup_def resolve_def reject_def Let_def
        split: option.splits)

lemma deliverAll_settled:
  "result j \<noteq> Pending \<Longrightarrow> result (deliverAll evs j) = result j"
proof (induction evs arbitrary: j)
  case Nil
  then show ?case by (simp add: deliverAll_def)
next
  case (Cons ev evs)
  have "result (deliver ev j) = result j"
    using Cons.prems by (simp add: deliver_def messageHandler_settled)
  with Cons show ?case by (simp add: deliverAll_def)
qed

lemma messageHandler_listening:
  "listening j \<Longrightarrow> result (messageHandler ev j) = Pending \<Longrightarrow> listening (messageHandler ev j)"
  by (auto simp: messageHandler_def cleanup_def resolve_def reject_def Let_def
        split: option.splits if_splits)

lemma deliverAll_Cons: "deliverAll (ev # evs) j = deliverAll evs (deliver ev j)"
  by (simp add: deliverAll_def)

lemma deliverAll_outcome:
  "listening j \<Longrightarrow> result j = Pending \<Longrightarrow>
   result (deliverAll evs j) = traceOutcome (expectedStreamEnds j) evs"
proof (induction evs arbitrary: j)
  case Nil
  then show ?case by (simp add: deliverAll_def)
next
  case (Cons ev evs)
  let ?j = "messageHandler ev j"
  have step: "deliverAll (ev # evs) j = deliverAll evs ?j"
    using Cons.prems(1) by (simp add: deliverAll_Cons deliver_def)
  show ?case
  proof (cases "result ?j = Pending")
    case True
    then have l: "listening ?j"
      using Cons.prems(1) by (rule messageHandler_listening [rotated])
    have nres: "\<not> (content ev = None \<and> expectedStreamEnds j - {stack ev} = {})"
      using messageHandler_resolved [OF Cons.prems(2), of ev] True by simp
    have nrej: "\<And>c. \<not> (stack ev = Error \<and> content ev = Some c \<and> c \<noteq> [])"
      using messageHandler_rejected [OF Cons.prems(2), of ev] True by simp
    have "result (deliverAll evs ?j) = traceOutcome (expectedStreamEnds ?j) evs"
      using Cons.IH [OF l True] .
    then show ?thesis
      using step nres nrej by (auto simp: messageHandler_expected split: option.splits)
  next
    case False
    then have keep: "result (deliverAll evs ?j) = result ?j"
      by (rule deliverAll_settled)
    show ?thesis
    proof (cases "content ev")
      case None
      with False Cons.prems(2) have "result ?j = Resolved"
        by (auto simp: messageHandler_def cleanup_def resolve_def Let_def split: if_splits)
      moreover from this have "expectedStreamEnds j - {stack ev} = {}"
        using messageHandler_resolved [OF Cons.prems(2), of ev] by simp
      ultimately show ?thesis using step keep None by simp
    next
      case (Some c)
      with False Cons.prems(2) have "stack ev = Error \<and> c \<noteq> [] \<and> result ?j = Rejected (JsError c)"
        by (auto simp: messageHandler_def reject_def Let_def split: if_splits)
      then show ?thesis using step keep Some by simp
    qed
  qed
qed

text \<open>
  C1, as stated, fails: an \<^verbatim>\<open>error\<close> event whose chunk is the empty string has
  non-null content, and the promise of the job is still pending after it.
\<close>

theorem error_chunk_counterexample:
  "stack \<lparr>stack = Error, content = Some []\<rparr> = Error \<and>
   content \<lparr>stack = Error, content = Some []\<rparr> \<noteq> None \<and>
   result (messageHandler \<lparr>stack = Error, content = Some []\<rparr> (newJob [])) = Pending"
  by (simp add: messageHandler_def newJob_def)

text \<open>
  C1, amended.  A job that \<^verbatim>\<open>workerStreamRender\<close> dispatches starts with the expected set
  \<open>{head, tail, content, error}\<close> and a pending promise.  An end marker removes its stack
  from the set, and no other event changes the set.  A pending promise is resolved by an
  event exactly when the event is an end marker that leaves the set empty, and is rejected
  with the chunk of an event exactly when the event is on the \<^verbatim>\<open>error\<close> stack with a chunk
  that is neither null nor empty, whatever stacks are still open.  Over the whole sequence of
  events of the worker, the promise is the outcome decided by the first of these two events.
\<close>

theorem worker_job_outcome:
  "(workerStreamRender requirePath poolSetup b = Inr j0 \<longrightarrow> j0 = newJob b) \<and>
   expectedStreamEnds (newJob b) = {Head, Tail, Content, Error} \<and>
   result (newJob b) = Pending \<and>
   (content ev = None \<longrightarrow>
      expectedStreamEnds (messageHandler ev j) = expectedStreamEnds j - {stack ev}) \<and>
   (content ev \<noteq> None \<longrightarrow>
      expectedStreamEnds (messageHandler ev j) = expectedStreamEnds j) \<and>
   (result j = Pending \<longrightarrow>
      (result (messageHandler ev j) = Resolved \<longleftrightarrow>
         content ev = None \<and> expectedStreamEnds j - {stack ev} = {})) \<and>
   (result j = Pending \<longrightarrow>
      (result (messageHandler ev j) = Rejected (JsError c) \<longleftrightarrow>
         stack ev = Error \<and> content ev = Some c \<and> c \<noteq> [])) \<and>
   result (deliverAll evs (newJob b)) = traceOutcome {Head, Tail, Content, Error} evs"
proof (intro conjI impI)
  assume "workerStreamRender requirePath poolSetup b = Inr j0"
  then show "j0 = newJob b"
    by (auto simp: workerStreamRender_def split: sum.splits if_splits)
next
  show "expectedStreamEnds (newJob b) = {Head, Tail, Content, Error}"
    by (simp add: newJob_def)
next
  show "result (newJob b) = Pending"
    by (simp add: newJob_def)
next
  assume "content ev = None"
  then show "expectedStreamEnds (messageHandler ev j) = expectedStreamEnds j - {stack ev}"
    by (simp add: messageHandler_expected)
next
  assume "content ev \<noteq> None"
  then show "expectedStreamEnds (messageHandler ev j) = expectedStreamEnds j"
    by (auto simp: messageHandler_expected)
next
  assume "result j = Pending"
  then show "result (messageHandler ev j) = Resolved \<longleftrightarrow>
         content ev = None \<and> expectedStreamEnds j - {stack ev} = {}"
    by (rule messageHandler_resolved)
next
  assume "result j = Pending"
  then show "result (messageHandler ev j) = Rejected (JsError c) \<longleftrightarrow>
         stack ev = Error \<and> content ev = Some c \<and> c \<noteq> []"
    by (rule messageHandler_rejected)
next
  have "result (deliverAll evs (newJob b)) = traceOutcome (expectedStreamEnds (newJob b)) evs"
    by (rule deliverAll_outcome) (simp_all add: newJob_def)
  then show "result (deliverAll evs (newJob b)) = traceOutcome {Head, Tail, Content, Error} evs"
    by (simp add: newJob_def)
qed


theorem worker_job_outcome_witness:
  "workerStreamRender (Inr ''ssr.js'') True [] = Inr (newJob []) \<and>
   content \<lparr>stack = Head, content = None\<rparr> = None \<and>
   expectedStreamEnds (messageHandler \<lparr>stack = Head, content = None\<rparr> (newJob [])) =
     {Tail, Content, Error} \<and>
   result (newJob []) = Pending \<and>
   result (messageHandler \<lparr>stack = Error, content = Some ''boom''\<rparr> (newJob [])) =
     Rejected (JsError ''boom'') \<and>
   result (deliverAll
     [\<lparr>stack = Head, content = None\<rparr>, \<lparr>stack = Tail, content = None\<rparr>,
      \<lparr>stack = Content, content = Some ''<h1>1</h1>''\<rparr>, \<lparr>stack = Content, content = None\<rparr>,
      \<lparr>stack = Error, content = None\<rparr>] (newJob [])) = Resolved"
  using worker_job_outcome [of "Inr ''ssr.js''" True "[]" "newJob []"
          "\<lparr>stack = Head, content = None\<rparr>" "newJob []" "''boom''"
          "[\<lparr>stack = Head, content = None\<rparr>, \<lparr>stack = Tail, content = None\<rparr>,
            \<lparr>stack = Content, content = Some ''<h1>1</h1>''\<rparr>, \<lparr>stack = Content, content = None\<rparr>,
            \<lparr>stack = Error, content = None\<rparr>]"]
        worker_job_outcome [of "Inr ''ssr.js''" True "[]" "newJob []"
          "\<lparr>stack = Error, content = Some ''boom''\<rparr>" "newJob []" "''boom''" "[]"]
  by (auto simp: workerStreamRender_def newJob_def)

section \<open>Handles of the worker pool\<close>

lemma lend_simps:
  "idle (lend w b p) = idle p"
  "waiting (lend w b p) = waiting p"
  "leases (lend w b p) = leases p @ [\<lparr>worker = w, holding = True, leasedJob = newJob b\<rparr>]"
  "borrowed (lend w b p) = borrowed p @ [w]"
  by (simp_all add: lend_def borrowed_def)

lemma count_use:
  "mset (idle (use b p)) + mset (borrowed (use b p)) = mset (idle p) + mset (borrowed p)"
  by (cases "idle p") (simp_all add: use_def lend_simps borrowed_def)

lemma count_release:
  "mset (idle (release w p)) + mset (borrowed (release w p)) =
   mset (idle p) + mset (borrowed p) + {#w#}"
  by (cases "waiting p") (simp_all add: release_def lend_simps borrowed_def)

lemma count_fold_release:
  "mset (idle (fold release ws p)) + mset (borrowed (fold release ws p)) =
   mset (idle p) + mset (borrowed p) + mset ws"
  by (induction ws arbitrary: p) (simp_all add: count_release)

lemma leasesOk_use: "leasesOk p \<Longrightarrow> leasesOk (use b p)"
  by (cases "idle p") (auto simp: leasesOk_def use_def lend_simps newJob_def)

lemma leasesOk_release: "leasesOk p \<Longrightarrow> leasesOk (release w p)"
  by (cases "waiting p") (auto simp: leasesOk_def release_def lend_simps newJob_def)

lemma leasesOk_fold_release: "leasesOk p \<Longrightarrow> leasesOk (fold release ws p)"
  by (induction ws arbitrary: p) (simp_all add: leasesOk_release)

lemma deliver_listening:
  assumes "result j = Pending \<longrightarrow> listening j" and "result (deliver ev j) = Pending"
  shows "listening (deliver ev j)"
proof (cases "listening j")
  case True
  then show ?thesis
    using assms(2) by (simp add: deliver_def messageHandler_listening)
next
  case False
  then show ?thesis using assms by (simp add: deliver_def)
qed

lemma holding_onMessage:
  "holding (onMessage w ev l) \<longleftrightarrow> holding l \<and> \<not> settles w ev l"
  by (auto simp: onMessage_def settles_def)

lemma worker_onMessage: "worker (onMessage w ev l) = worker l"
  by (simp add: onMessage_def)

lemma leasesOk_onMessage:
  assumes "leasesOk p"
  shows "leasesOk (p\<lparr>leases := map (onMessage w ev) (leases p)\<rparr>)"
proof -
  have "result (leasedJob (onMessage w ev l)) = Pending" if "l \<in> set (leases p)"
    and "holding (onMessage w ev l)" for l
    using that assms by (auto simp: leasesOk_def onMessage_def settles_def split: if_splits)
  moreover have "listening (leasedJob (onMessage w ev l))" if "l \<in> set (leases p)"
    and "result (leasedJob (onMessage w ev l)) = Pending" for l
    using that assms deliver_listening [of "leasedJob l" ev]
    by (auto simp: leasesOk_def onMessage_def split: if_splits)
  ultimately show ?thesis
    using assms by (auto simp: leasesOk_def)
qed

lemma released_split:
  "mset (map worker (filter (settles w ev) ls)) +
   mset (map worker (filter (\<lambda>l. holding l \<and> \<not> settles w ev l) ls)) =
   mset (map worker (filter holding ls))"
  by (induction ls) (auto simp: settles_def)

lemma count_workerMessage:
  "mset (idle (workerMessage w ev p)) + mset (borrowed (workerMessage w ev p)) =
   mset (idle p) + mset (borrowed p)"
proof -
  let ?p1 = "p\<lparr>leases := map (onMessage w ev) (leases p)\<rparr>"
  have "borrowed ?p1 = map worker (filter (\<lambda>l. holding l \<and> \<not> settles w ev l) (leases p))"
    by (simp add: borrowed_def filter_map comp_def holding_onMessage worker_onMessage)
  then have "mset (idle ?p1) + mset (borrowed ?p1) +
        mset (map worker (filter (settles w ev) (leases p))) = mset (idle p) + mset (borrowed p)"
    using released_split [of w ev "leases p"] by (simp add: borrowed_def add.commute add.left_commute)
  then show ?thesis
    by (simp add: workerMessage_def count_fold_release)
qed

lemma poolInv_createPool: "poolInv K (createPool K)"
  by (simp add: poolInv_def leasesOk_def createPool_def borrowed_def)

lemma poolInv_use: "poolInv K p \<Longrightarrow> poolInv K (use b p)"
  by (simp add: poolInv_def count_use leasesOk_use)

lemma poolInv_workerMessage: "poolInv K p \<Longrightarrow> poolInv K (workerMessage w ev p)"
  unfolding poolInv_def
  by (simp add: count_workerMessage)
     (simp add: workerMessage_def leasesOk_fold_release leasesOk_onMessage)

lemma poolInv_step: "poolInv K p \<Longrightarrow> poolInv K (poolStep a p)"
  by (cases a) (simp_all add: poolInv_use poolInv_workerMessage)

lemma poolInv_runPool: "poolInv K p \<Longrightarrow> poolInv K (runPool acts p)"
  unfolding runPool_def
  by (induction acts arbitrary: p) (simp_all add: poolInv_step)

lemma released_replicate:
  "map worker (filter (settles w ev) ls) = replicate (length (filter (settles w ev) ls)) w"
  by (induction ls) (auto simp: settles_def)

lemma fold_release_no_waiting:
  "waiting p = [] \<Longrightarrow> fold release ws p = p\<lparr>idle := idle p @ ws\<rparr>"
  by (induction ws arbitrary: p) (simp_all add: release_def)

lemma leases_release_mono: "set (leases p) \<subseteq> set (leases (release w p))"
  by (cases "waiting p") (auto simp: release_def lend_simps)

lemma leases_fold_release_mono: "set (leases p) \<subseteq> set (leases (fold release ws p))"
proof (induction ws arbitrary: p)
  case Nil
  then show ?case by simp
next
  case (Cons w ws)
  show ?case
    using leases_release_mono [of p w] Cons [of "release w p"] by auto
qed

lemma fold_release_waiter:
  assumes "waiting p = b # bs"
  shows "\<lparr>worker = w, holding = True, leasedJob = newJob b\<rparr> \<in>
           set (leases (fold release (w # ws) p))"
proof -
  have "\<lparr>worker = w, holding = True, leasedJob = newJob b\<rparr> \<in> set (leases (release w p))"
    using assms by (simp add: release_def lend_simps)
  then show ?thesis
    using leases_fold_release_mono [of "release w p" ws] by auto
qed

lemma event_settles:
  assumes inv: "leasesOk p" and l: "l \<in> set (leases p)" and h: "holding l"
    and ev: "(content ev = None \<and> expectedStreamEnds (leasedJob l) - {stack ev} = {}) \<or>
             (stack ev = Error \<and> truthy (content ev))"
  shows "settles (worker l) ev l"
proof -
  have pend: "result (leasedJob l) = Pending"
    using inv l h by (simp add: leasesOk_def)
  then have "listening (leasedJob l)"
    using inv l by (simp add: leasesOk_def)
  then have d: "deliver ev (leasedJob l) = messageHandler ev (leasedJob l)"
    by (simp add: deliver_def)
  from ev have "result (messageHandler ev (leasedJob l)) \<noteq> Pending"
  proof
    assume "content ev = None \<and> expectedStreamEnds (leasedJob l) - {stack ev} = {}"
    then have "result (messageHandler ev (leasedJob l)) = Resolved"
      using messageHandler_resolved [OF pend, of ev] by simp
    then show ?thesis by simp
  next
    assume e: "stack ev = Error \<and> truthy (content ev)"
    then obtain c where "content ev = Some c" and "c \<noteq> []"
      by (auto simp: truthy_def split: option.splits)
    with e have "result (messageHandler ev (leasedJob l)) = Rejected (JsError c)"
      using messageHandler_rejected [OF pend, of ev c] by simp
    then show ?thesis by simp
  qed
  with d h show ?thesis by (simp add: settles_def)
qed

lemma settled_released:
  assumes l: "l \<in> set (leases p)" and s: "settles (worker l) ev l"
  shows "onMessage (worker l) ev l \<in> set (leases (workerMessage (worker l) ev p))"
    and "\<not> holding (onMessage (worker l) ev l)"
    and "waiting p = [] \<Longrightarrow> worker l \<in> set (idle (workerMessage (worker l) ev p))"
    and "waiting p \<noteq> [] \<Longrightarrow>
         \<lparr>worker = worker l, holding = True, leasedJob = newJob (hd (waiting p))\<rparr> \<in>
           set (leases (workerMessage (worker l) ev p))"
proof -
  let ?w = "worker l"
  let ?p1 = "p\<lparr>leases := map (onMessage ?w ev) (leases p)\<rparr>"
  let ?n = "length (filter (settles ?w ev) (leases p))"
  have rel: "map worker (filter (settles ?w ev) (leases p)) = replicate ?n ?w"
    by (rule released_replicate)
  have "l \<in> set (filter (settles ?w ev) (leases p))"
    using l s by simp
  then have "?n \<noteq> 0"
    by (metis length_0_conv empty_iff empty_set)
  then obtain m where n: "?n = Suc m" by (cases ?n) auto
  have wm: "workerMessage ?w ev p = fold release (?w # replicate m ?w) ?p1"
    using rel n by (simp add: workerMessage_def)
  have "onMessage ?w ev l \<in> set (leases ?p1)"
    using l by simp
  then show "onMessage ?w ev l \<in> set (leases (workerMessage ?w ev p))"
    using leases_fold_release_mono [of ?p1 "?w # replicate m ?w"] wm by auto
  show "\<not> holding (onMessage ?w ev l)"
    using s by (simp add: holding_onMessage)
  show "?w \<in> set (idle (workerMessage ?w ev p))" if "waiting p = []"
  proof -
    have "waiting ?p1 = []" using that by simp
    then have "fold release (?w # replicate m ?w) ?p1 =
        ?p1\<lparr>idle := idle ?p1 @ (?w # replicate m ?w)\<rparr>"
      by (rule fold_release_no_waiting)
    then have "idle (workerMessage ?w ev p) = idle ?p1 @ (?w # replicate m ?w)"
      unfolding wm by simp
    then show ?thesis by simp
  qed
  show "\<lparr>worker = ?w, holding = True, leasedJob = newJob (hd (waiting p))\<rparr> \<in>
           set (leases (workerMessage ?w ev p))" if "waiting p \<noteq> []"
  proof -
    from that obtain b bs where "waiting p = b # bs" by (cases "waiting p") auto
    then have "waiting ?p1 = b # bs" and "hd (waiting p) = b" by simp_all
    then show ?thesis
      unfolding wm using fold_release_waiter [of ?p1 b bs ?w "replicate m ?w"] by metis
  qed
qed

text \<open>
  C4.  After any sequence of dispatches and worker messages on a pool of size \<open>K\<close>: at most
  \<open>K\<close> handles are borrowed; every handle of the pool is, exactly once, idle or borrowed, so
  no job, failed or not, takes a handle out of the pool; a caller waits only while no handle
  is idle; and no lease whose job is resolved (completed) or rejected (failed) holds a
  handle.  The message that completes a job holding a handle (the end marker that closes its
  last open stack) and the message that fails it (an \<^verbatim>\<open>error\<close> event with a truthy chunk)
  both release the handle at once: the lease holds it no longer, and the handle is idle when
  no caller waits, or else lent to the caller that has waited longest.
\<close>

theorem pool_handles_released:
  assumes p: "p = runPool acts (createPool K)"
  shows
    "length (borrowed p) \<le> K \<and>
     mset (idle p) + mset (borrowed p) = mset [0..<K] \<and>
     (waiting p \<noteq> [] \<longrightarrow> idle p = []) \<and>
     (\<forall>l \<in> set (leases p). result (leasedJob l) = Resolved \<longrightarrow> \<not> holding l) \<and>
     (\<forall>l \<in> set (leases p). \<forall>e. result (leasedJob l) = Rejected e \<longrightarrow> \<not> holding l) \<and>
     (\<forall>l \<in> set (leases p). \<forall>ev.
        holding l \<and>
        ((content ev = None \<and> expectedStreamEnds (leasedJob l) - {stack ev} = {}) \<or>
         (stack ev = Error \<and> truthy (content ev))) \<longrightarrow>
        onMessage (worker l) ev l \<in> set (leases (workerMessage (worker l) ev p)) \<and>
        \<not> holding (onMessage (worker l) ev l) \<and>
        (waiting p = [] \<longrightarrow> worker l \<in> set (idle (workerMessage (worker l) ev p))) \<and>
        (waiting p \<noteq> [] \<longrightarrow>
           \<lparr>worker = worker l, holding = True, leasedJob = newJob (hd (waiting p))\<rparr> \<in>
             set (leases (workerMessage (worker l) ev p))))"
proof -
  have inv: "poolInv K p"
    unfolding p by (rule poolInv_runPool) (rule poolInv_createPool)
  then have count: "mset (idle p) + mset (borrowed p) = mset [0..<K]" and ok: "leasesOk p"
    by (simp_all add: poolInv_def)
  from count have "size (mset (idle p) + mset (borrowed p)) = size (mset [0..<K])"
    by simp
  then have bound: "length (borrowed p) \<le> K"
    by simp
  have queue: "waiting p \<noteq> [] \<longrightarrow> idle p = []"
    using ok by (simp add: leasesOk_def)
  have pend: "\<forall>l \<in> set (leases p). holding l \<longrightarrow> result (leasedJob l) = Pending"
    using ok by (simp add: leasesOk_def)
  have rel: "onMessage (worker l) ev l \<in> set (leases (workerMessage (worker l) ev p)) \<and>
        \<not> holding (onMessage (worker l) ev l) \<and>
        (waiting p = [] \<longrightarrow> worker l \<in> set (idle (workerMessage (worker l) ev p))) \<and>
        (waiting p \<noteq> [] \<longrightarrow>
           \<lparr>worker = worker l, holding = True, leasedJob = newJob (hd (waiting p))\<rparr> \<in>
             set (leases (workerMessage (worker l) ev p)))"
    if l: "l \<in> set (leases p)" and h: "holding l"
      and ev: "(content ev = None \<and> expectedStreamEnds (leasedJob l) - {stack ev} = {}) \<or>
               (stack ev = Error \<and> truthy (content ev))" for l ev
    using settled_released [OF l event_settles [OF ok l h ev]] by blast
  show ?thesis
    using bound count queue pend rel by auto
qed


theorem pool_handles_released_witness:
  "idle (runPool [Dispatch [], Dispatch [],
          Message 0 \<lparr>stack = Head, content = None\<rparr>, Message 0 \<lparr>stack = Tail, content = None\<rparr>,
          Message 0 \<lparr>stack = Content, content = None\<rparr>,
          Message 0 \<lparr>stack = Error, content = None\<rparr>] (createPool 1)) = [] \<and>
   borrowed (runPool [Dispatch [], Dispatch [],
          Message 0 \<lparr>stack = Head, content = None\<rparr>, Message 0 \<lparr>stack = Tail, content = None\<rparr>,
          Message 0 \<lparr>stack = Content, content = None\<rparr>,
          Message 0 \<lparr>stack = Error, content = None\<rparr>] (createPool 1)) = [0] \<and>
   map (\<lambda>l. (holding l, result (leasedJob l)))
     (leases (runPool [Dispatch [], Dispatch [],
          Message 0 \<lparr>stack = Head, content = None\<rparr>, Message 0 \<lparr>stack = Tail, content = None\<rparr>,
          Message 0 \<lparr>stack = Content, content = None\<rparr>,
          Message 0 \<lparr>stack = Error, content = None\<rparr>] (createPool 1))) =
     [(False, Resolved), (True, Pending)] \<and>
   holding (hd (leases (runPool [Dispatch [],
          Message 0 \<lparr>stack = Head, content = None\<rparr>, Message 0 \<lparr>stack = Tail, content = None\<rparr>,
          Message 0 \<lparr>stack = Content, content = None\<rparr>] (createPool 1)))) \<and>
   expectedStreamEnds (leasedJob (hd (leases (runPool [Dispatch [],
          Message 0 \<lparr>stack = Head, content = None\<rparr>, Message 0 \<lparr>stack = Tail, content = None\<rparr>,
          Message 0 \<lparr>stack = Content, content = None\<rparr>] (createPool 1))))) - {Error} = {} \<and>
   idle (workerMessage 0 \<lparr>stack = Error, content = None\<rparr>
     (runPool [Dispatch [],
          Message 0 \<lparr>stack = Head, content = None\<rparr>, Message 0 \<lparr>stack = Tail, content = None\<rparr>,
          Message 0 \<lparr>stack = Content, content = None\<rparr>] (createPool 1))) = [0] \<and>
   holding (hd (leases (runPool [Dispatch []] (createPool 1)))) \<and>
   truthy (Some ''boom'') \<and>
   idle (workerMessage 0 \<lparr>stack = Error, content = Some ''boom''\<rparr>
     (runPool [Dispatch []] (createPool 1))) = [0] \<and>
   map (\<lambda>l. (holding l, result (leasedJob l)))
     (leases (workerMessage 0 \<lparr>stack = Error, content = Some ''boom''\<rparr>
        (runPool [Dispatch []] (createPool 1)))) = [(False, Rejected (JsError ''boom''))]"
  using pool_handles_released [OF refl, of
          "[Dispatch [], Dispatch [],
            Message 0 \<lparr>stack = Head, content = None\<rparr>, Message 0 \<lparr>stack = Tail, content = None\<rparr>,
            Message 0 \<lparr>stack = Content, content = None\<rparr>,
            Message 0 \<lparr>stack = Error, content = None\<rparr>]" 1]
        pool_handles_released [OF refl, of
          "[Dispatch [],
            Message 0 \<lparr>stack = Head, content = None\<rparr>, Message 0 \<lparr>stack = Tail, content = None\<rparr>,
            Message 0 \<lparr>stack = Content, content = None\<rparr>]" 1]
        pool_handles_released [OF refl, of "[Dispatch []]" 1]
  by (simp add: runPool_def createPool_def use_def lend_def release_def workerMessage_def
        onMessage_def settles_def deliver_def messageHandler_def newJob_def reject_def
        resolve_def cleanup_def borrowed_def truthy_def Let_def)

section \<open>Transforms of the hooks in \<^verbatim>\<open>staticRender\<close>\<close>

text \<open>
  When every hook has a transform that returns, the transforms are applied in the order of
  the hooks.
\<close>

lemma applyTransforms_in_order:
  "map transform hs = map (\<lambda>f. Some (\<lambda>app. Inr (f app))) fs \<Longrightarrow>
   applyTransforms hs app = Inr (fold (\<lambda>f a. f a) fs app)"
proof (induction hs arbitrary: fs app)
  case Nil
  then show ?case by simp
next
  case (Cons h hs)
  then obtain f fs' where fs: "fs = f # fs'" by (cases fs) auto
  with Cons.prems have h: "transform h = Some (\<lambda>app. Inr (f app))"
    and rest: "map transform hs = map (\<lambda>f. Some (\<lambda>app. Inr (f app))) fs'"
    by simp_all
  show ?case
    using Cons.IH [OF rest] h fs by simp
qed

lemma applyTransforms_missing:
  "h \<in> set hs \<Longrightarrow> transform h = None \<Longrightarrow> \<exists>e. applyTransforms hs app = Inl e"
  by (induction hs arbitrary: app) (auto split: option.splits sum.splits)

text \<open>
  C5 at a hook without \<^verbatim>\<open>transform\<close>: \<^verbatim>\<open>staticRender\<close> calls the missing member and the
  render fails with a \<^verbatim>\<open>TypeError\<close>, where the same render without that hook succeeds.
\<close>

theorem hook_without_transform_fails:
  "transform headOnlyHook = None \<and>
   staticRender [''head.ts'' \<mapsto> headOnlyHook, ''wrap.ts'' \<mapsto> wrapHook ''Transform Hook'']
     \<lparr>renderBase = [], destination = ''/render-test'', bootProps = JObj [],
      hooks = [''head.ts'', ''wrap.ts''], mode = Sync, renderToString = renderOk\<rparr> =
     Inl (TypeError ''hook.transform is not a function'') \<and>
   staticRender [''wrap.ts'' \<mapsto> wrapHook ''Transform Hook'']
     \<lparr>renderBase = [], destination = ''/render-test'', bootProps = JObj [],
      hooks = [''wrap.ts''], mode = Sync, renderToString = renderOk\<rparr> =
     Inr ''<h1>1</h1><p>2</p>''"
  by (simp add: staticRender_def headOnlyHook_def wrapHook_def renderOk_def)

section \<open>The content stack of a development render\<close>

lemma startRenderBus_dev_tail:
  "devMode env \<Longrightarrow> \<forall>push \<in> set (startRenderBus env). fst push = Tail"
  by (simp add: startRenderBus_def)

lemma wrappedRender_dev_bus:
  "devMode env \<Longrightarrow> wrappedRender env = Inr st \<Longrightarrow> renderBus st = startRenderBus env"
  by (auto simp: wrappedRender_def Let_def split: sum.splits)

lemma wrappedRender_dev_no_content:
  assumes "devMode env" and "wrappedRender env = Inr st"
  shows "pushesOn Content (renderBus st) = [] \<and> pushesOn Error (renderBus st) = []"
proof -
  have "renderBus st = startRenderBus env"
    using assms by (rule wrappedRender_dev_bus)
  moreover have "\<forall>push \<in> set (startRenderBus env). fst push = Tail"
    using assms(1) by (rule startRenderBus_dev_tail)
  ultimately show ?thesis
    by (auto simp: pushesOn_def filter_empty_conv)
qed

text \<open>
  C3 at a development render in sync mode: \<^verbatim>\<open>staticRender\<close> returns the markup, and the
  bus of the render has no push on the \<^verbatim>\<open>content\<close> stack, neither a chunk nor the end
  marker; when the render capability throws, the error is logged and the bus has no
  \<^verbatim>\<open>error\<close> event.
\<close>

theorem dev_sync_render_pushes_no_content:
  "devRender (devSyncEnv renderOk) ''/ssr.jsx'' ''/render-test'' = Inr ''<h1>1</h1><p>2</p>'' \<and>
   wrappedRender (devSyncEnv renderOk) =
     Inr \<lparr>renderBus = startRenderBus (devSyncEnv renderOk), console = [], workerJob = None\<rparr> \<and>
   pushesOn Content (startRenderBus (devSyncEnv renderOk)) = [] \<and>
   wrappedRender (devSyncEnv renderThrows) =
     Inr \<lparr>renderBus = startRenderBus (devSyncEnv renderThrows), console = [JsError ''fail''],
          workerJob = None\<rparr> \<and>
   pushesOn Content (startRenderBus (devSyncEnv renderThrows)) = [] \<and>
   pushesOn Error (startRenderBus (devSyncEnv renderThrows)) = []"
proof -
  have ok: "devRender (devSyncEnv renderOk) ''/ssr.jsx'' ''/render-test'' = Inr ''<h1>1</h1><p>2</p>''"
    by (simp add: devRender_def devSyncEnv_def staticRender_def renderOk_def)
  have bad: "devRender (devSyncEnv renderThrows) ''/ssr.jsx'' ''/render-test'' = Inl (JsError ''fail'')"
    by (simp add: devRender_def devSyncEnv_def staticRender_def renderThrows_def)
  have dest: "\<And>c. stripBasePath (requestUrl (devSyncEnv c)) (renderBasePath (devSyncEnv c)) = ''/render-test''"
    by (simp add: devSyncEnv_def stripBasePath_def startsWith_def slice_def)
  have path: "\<And>m r n. entrypointRequirePathForServer True m r n = Inr n"
    by (simp add: entrypointRequirePathForServer_def)
  have name: "\<And>c. serverEntrypointName (devSyncEnv c) = ''/ssr.jsx''"
    by (simp add: devSyncEnv_def)
  have dev: "\<And>c. devMode (devSyncEnv c)"
    by (simp add: devSyncEnv_def)
  have w1: "wrappedRender (devSyncEnv renderOk) =
     Inr \<lparr>renderBus = startRenderBus (devSyncEnv renderOk), console = [], workerJob = None\<rparr>"
    by (simp add: wrappedRender_def Let_def dest path name dev ok)
  have w2: "wrappedRender (devSyncEnv renderThrows) =
     Inr \<lparr>renderBus = startRenderBus (devSyncEnv renderThrows), console = [JsError ''fail''],
          workerJob = None\<rparr>"
    by (simp add: wrappedRender_def Let_def dest path name dev bad)
  show ?thesis
    using ok w1 w2 wrappedRender_dev_no_content [OF dev w1]
      wrappedRender_dev_no_content [OF dev w2]
    by simp
qed

section \<open>Hook output of a development render\<close>

text \<open>
  C6 at a development render with a counter hook registered.  \<^verbatim>\<open>staticRender\<close> requires
  the module of the hook on every call and reads its \<^verbatim>\<open>transform\<close> only: no thunk and no
  \<^verbatim>\<open>heads()\<close> is called.  With the hook as it is (no \<^verbatim>\<open>transform\<close>) the render fails
  and the error is logged; with a \<^verbatim>\<open>transform\<close> that returns, the render succeeds.  Either
  way the bus of the render is the three tail pushes of \<^verbatim>\<open>startRenderBus\<close>, with nothing
  on the head stack and nothing on the content stack, so every render of the request leaves
  the same pushes and none of them comes from the hook.
\<close>

theorem hook_output_never_pushed:
  "heads (counterModule None) \<noteq> None \<and>
   wrappedRender (devHookEnv None) =
     Inr \<lparr>renderBus = startRenderBus (devSyncEnv renderOk),
          console = [TypeError ''hook.transform is not a function''], workerJob = None\<rparr> \<and>
   wrappedRender (devHookEnv (Some (\<lambda>app. Inr app))) =
     Inr \<lparr>renderBus = startRenderBus (devSyncEnv renderOk), console = [], workerJob = None\<rparr> \<and>
   pushesOn Head (startRenderBus (devSyncEnv renderOk)) = [] \<and>
   pushesOn Content (startRenderBus (devSyncEnv renderOk)) = [] \<and>
   length (pushesOn Tail (startRenderBus (devSyncEnv renderOk))) = 3"
proof -
  have bus: "\<And>t. startRenderBus (devHookEnv t) = startRenderBus (devSyncEnv renderOk)"
    by (simp add: startRenderBus_def devHookEnv_def)
  have dev: "\<And>t. devMode (devHookEnv t)"
    by (simp add: devHookEnv_def devSyncEnv_def)
  have dest: "\<And>t. stripBasePath (requestUrl (devHookEnv t)) (renderBasePath (devHookEnv t)) =
      ''/render-test''"
    by (simp add: devHookEnv_def devSyncEnv_def stripBasePath_def startsWith_def slice_def)
  have path: "\<And>m r n. entrypointRequirePathForServer True m r n = Inr n"
    by (simp add: entrypointRequirePathForServer_def)
  have name: "\<And>t. serverEntrypointName (devHookEnv t) = ''/ssr.jsx''"
    by (simp add: devHookEnv_def devSyncEnv_def)
  have r1: "devRender (devHookEnv None) ''/ssr.jsx'' ''/render-test'' =
      Inl (TypeError ''hook.transform is not a function'')"
    by (simp add: devRender_def devHookEnv_def devSyncEnv_def staticRender_def counterModule_def)
  have r2: "devRender (devHookEnv (Some (\<lambda>app. Inr app))) ''/ssr.jsx'' ''/render-test'' =
      Inr ''<h1>1</h1><p>2</p>''"
    by (simp add: devRender_def devHookEnv_def devSyncEnv_def staticRender_def counterModule_def
          renderOk_def)
  have w1: "wrappedRender (devHookEnv None) =
     Inr \<lparr>renderBus = startRenderBus (devSyncEnv renderOk),
          console = [TypeError ''hook.transform is not a function''], workerJob = None\<rparr>"
    by (simp add: wrappedRender_def Let_def dest path name dev r1 bus)
  have w2: "wrappedRender (devHookEnv (Some (\<lambda>app. Inr app))) =
     Inr \<lparr>renderBus = startRenderBus (devSyncEnv renderOk), console = [], workerJob = None\<rparr>"
    by (simp add: wrappedRender_def Let_def dest path name dev r2 bus)
  have b: "pushesOn Head (startRenderBus (devSyncEnv renderOk)) = [] \<and>
   pushesOn Content (startRenderBus (devSyncEnv renderOk)) = [] \<and>
   length (pushesOn Tail (startRenderBus (devSyncEnv renderOk))) = 3"
    by (simp add: pushesOn_def startRenderBus_def devSyncEnv_def)
  have h: "heads (counterModule None) \<noteq> None"
    by (simp add: counterModule_def)
  show ?thesis
    using h w1 w2 b by simp
qed

section \<open>Early replies\<close>

lemma startRenderBus_tail: "pushesOn Tail (startRenderBus env) \<noteq> []"
  by (simp add: startRenderBus_def pushesOn_def)

text \<open>
  C7.  When the reply is already sent after the upstream collaborators (pre-processing hooks,
  then the handler that supplies the props) have run, the route ends with that very reply,
  status code and body included, and with no push on any stack of a bus.  When it is not
  sent, the render phase runs: the tail stack receives pushes and the body is the
  document.
\<close>

theorem early_reply_short_circuits:
  assumes "r = fold (\<lambda>collaborator. collaborator) upstream r0"
  shows "(sent r \<longrightarrow> renderRoute upstream env r0 = Inr (r, [])) \<and>
         (\<not> sent r \<longrightarrow> (\<forall>r' b. renderRoute upstream env r0 = Inr (r', b) \<longrightarrow>
            pushesOn Tail b \<noteq> [] \<and> payload r' = DocumentStream))"
proof -
  have early: "renderRoute upstream env r0 = Inr (r, [])" if "sent r"
    using that assms by (simp add: renderRoute_def)
  have late: "pushesOn Tail b \<noteq> [] \<and> payload r' = DocumentStream"
    if ns: "\<not> sent r" and rr: "renderRoute upstream env r0 = Inr (r', b)" for r' b
  proof -
    from ns rr obtain st where w: "wrappedRender env = Inr st" and b: "b = renderBus st"
      and r': "r' = r\<lparr>sent := True, payload := DocumentStream\<rparr>"
      using assms by (auto simp: renderRoute_def Let_def split: sum.splits)
    have "renderBus st = startRenderBus env"
      using w by (auto simp: wrappedRender_def Let_def workerStreamRender_def
                    split: sum.splits if_splits)
    then have "pushesOn Tail b \<noteq> []"
      using b startRenderBus_tail by simp
    with r' show ?thesis by simp
  qed
  show ?thesis
    using early late by blast
qed

theorem early_reply_short_circuits_witness:
  "sent (fold (\<lambda>collaborator. collaborator) [codeSend 201 ''hello'', (\<lambda>r. r)]
          \<lparr>sent = False, statusCode = 200, payload = NoBody\<rparr>) \<and>
   renderRoute [codeSend 201 ''hello'', (\<lambda>r. r)] (devSyncEnv renderOk)
     \<lparr>sent = False, statusCode = 200, payload = NoBody\<rparr> =
   Inr (\<lparr>sent = True, statusCode = 201, payload = Text ''hello''\<rparr>, [])"
  using early_reply_short_circuits [OF refl, of "[codeSend 201 ''hello'', (\<lambda>r. r)]"
          "\<lparr>sent = False, statusCode = 200, payload = NoBody\<rparr>" "devSyncEnv renderOk"]
  by (simp add: codeSend_def)

end
